theory Spec2Isabelle
  imports Complex_Main
begin

section \<open>Numbers, errors and dates\<close>

text \<open>
  The calendar layout of \<^verbatim>\<open>packages/calendar/src/compute.js\<close>, embedded function by
  function. Arithmetic is exact (real numbers in place of IEEE doubles). A JavaScript
  number is a real number, one of the two infinities (what a division of a number other than
  zero by zero gives, and \<^verbatim>\<open>Math.max()\<close> of no argument), or \<^verbatim>\<open>NaN\<close>,
  which is also what arithmetic makes of \<^verbatim>\<open>undefined\<close>. \<open>Num 0\<close> is the
  positive zero: a divisor of this program that is zero is a product of numbers that are
  not negative.
\<close>

datatype number = Num real | Infinity | MinusInfinity | NaN

text \<open>The infinity with the sign of \<open>s\<close>; \<^verbatim>\<open>NaN\<close> for zero.\<close>

definition signedInfinity :: "real \<Rightarrow> number" where
  "signedInfinity s = (if s = 0 then NaN else if 0 < s then Infinity else MinusInfinity)"

instantiation number :: "{plus, minus, times, inverse}"
begin

fun plus_number :: "number \<Rightarrow> number \<Rightarrow> number" where
  "plus_number (Num a) (Num b) = Num (a + b)"
| "plus_number NaN _ = NaN"
| "plus_number _ NaN = NaN"
| "plus_number Infinity MinusInfinity = NaN"
| "plus_number MinusInfinity Infinity = NaN"
| "plus_number Infinity _ = Infinity"
| "plus_number _ Infinity = Infinity"
| "plus_number MinusInfinity _ = MinusInfinity"
| "plus_number _ MinusInfinity = MinusInfinity"

fun minus_number :: "number \<Rightarrow> number \<Rightarrow> number" where
  "minus_number (Num a) (Num b) = Num (a - b)"
| "minus_number NaN _ = NaN"
| "minus_number _ NaN = NaN"
| "minus_number Infinity Infinity = NaN"
| "minus_number MinusInfinity MinusInfinity = NaN"
| "minus_number Infinity _ = Infinity"
| "minus_number _ MinusInfinity = Infinity"
| "minus_number MinusInfinity _ = MinusInfinity"
| "minus_number _ Infinity = MinusInfinity"

fun times_number :: "number \<Rightarrow> number \<Rightarrow> number" where
  "times_number (Num a) (Num b) = Num (a * b)"
| "times_number NaN _ = NaN"
| "times_number _ NaN = NaN"
| "times_number Infinity (Num b) = signedInfinity b"
| "times_number (Num a) Infinity = signedInfinity a"
| "times_number MinusInfinity (Num b) = signedInfinity (- b)"
| "times_number (Num a) MinusInfinity = signedInfinity (- a)"
| "times_number Infinity Infinity = Infinity"
| "times_number MinusInfinity MinusInfinity = Infinity"
| "times_number Infinity MinusInfinity = MinusInfinity"
| "times_number MinusInfinity Infinity = MinusInfinity"

fun divide_number :: "number \<Rightarrow> number \<Rightarrow> number" where
  "divide_number (Num a) (Num b) = (if b = 0 then signedInfinity a else Num (a / b))"
| "divide_number NaN _ = NaN"
| "divide_number _ NaN = NaN"
| "divide_number (Num a) Infinity = Num 0"
| "divide_number (Num a) MinusInfinity = Num 0"
| "divide_number Infinity (Num b) = (if 0 \<le> b then Infinity else MinusInfinity)"
| "divide_number MinusInfinity (Num b) = (if 0 \<le> b then MinusInfinity else Infinity)"
| "divide_number Infinity Infinity = NaN"
| "divide_number Infinity MinusInfinity = NaN"
| "divide_number MinusInfinity Infinity = NaN"
| "divide_number MinusInfinity MinusInfinity = NaN"

fun inverse_number :: "number \<Rightarrow> number" where
  "inverse_number (Num a) = (if a = 0 then Infinity else Num (inverse a))"
| "inverse_number Infinity = Num 0"
| "inverse_number MinusInfinity = Num 0"
| "inverse_number NaN = NaN"

instance ..

end

text \<open>
  \<^verbatim>\<open>Math.min(a, b)\<close> and \<^verbatim>\<open>Math.max(a, b)\<close>: \<^verbatim>\<open>NaN\<close> as soon as one
  argument is, and the other argument when one is the infinity that cannot win.
\<close>

fun Math_min :: "number \<Rightarrow> number \<Rightarrow> number" where
  "Math_min (Num a) (Num b) = Num (min a b)"
| "Math_min NaN _ = NaN"
| "Math_min _ NaN = NaN"
| "Math_min MinusInfinity _ = MinusInfinity"
| "Math_min _ MinusInfinity = MinusInfinity"
| "Math_min Infinity b = b"
| "Math_min a Infinity = a"

fun Math_max :: "number \<Rightarrow> number \<Rightarrow> number" where
  "Math_max (Num a) (Num b) = Num (max a b)"
| "Math_max NaN _ = NaN"
| "Math_max _ NaN = NaN"
| "Math_max Infinity _ = Infinity"
| "Math_max _ Infinity = Infinity"
| "Math_max MinusInfinity b = b"
| "Math_max a MinusInfinity = a"

text \<open>\<^verbatim>\<open>a <= b\<close> on numbers: false as soon as one side is \<^verbatim>\<open>NaN\<close>.\<close>

fun num_le :: "number \<Rightarrow> number \<Rightarrow> bool" where
  "num_le (Num a) (Num b) = (a \<le> b)"
| "num_le NaN _ = False"
| "num_le _ NaN = False"
| "num_le MinusInfinity _ = True"
| "num_le _ Infinity = True"
| "num_le Infinity _ = False"
| "num_le _ MinusInfinity = False"

definition ofInt :: "int \<Rightarrow> number" where
  "ofInt k = Num (of_int k)"

text \<open>
  What a call can end in besides a value: a \<^verbatim>\<open>TypeError\<close>, or a loop that never
  ends. The two places where this program reads a property of \<^verbatim>\<open>undefined\<close> are
  kept apart: \<open>TypeError\<close> is the read of \<^verbatim>\<open>getUTCMonth\<close> on a start date that
  is \<^verbatim>\<open>undefined\<close> (line 182), and \<open>IndexTypeError k\<close> the read of
  \<^verbatim>\<open>bbox\<close> on \<^verbatim>\<open>yearMonths[k]\<close> past the end of that list (lines 466 to
  469).
\<close>

datatype error = TypeError | IndexTypeError nat | Diverges

fun bindE :: "error + 'a \<Rightarrow> ('a \<Rightarrow> error + 'b) \<Rightarrow> error + 'b" where
  "bindE (Inl e) f = Inl e"
| "bindE (Inr v) f = f v"

text \<open>\<^verbatim>\<open>xs.map(f)\<close> with a callback that may throw: the first throw ends the call.\<close>

fun mapE :: "('a \<Rightarrow> error + 'b) \<Rightarrow> 'a list \<Rightarrow> error + 'b list" where
  "mapE f [] = Inr []"
| "mapE f (v # vs) = bindE (f v) (\<lambda>w. bindE (mapE f vs) (\<lambda>ws. Inr (w # ws)))"

text \<open>
  A \<^verbatim>\<open>Date\<close> is read through its civil fields; the local time zone is fixed to UTC,
  so that \<^verbatim>\<open>getUTCFullYear\<close> is \<^verbatim>\<open>getFullYear\<close> and so on. Months count
  from 0, as in JavaScript. \<open>getTimeOfDay\<close> is the milliseconds since midnight.
\<close>

record jsdate =
  getFullYear :: int
  getMonth :: nat
  getDate :: nat
  getTimeOfDay :: nat

definition getUTCFullYear :: "jsdate \<Rightarrow> int" where
  "getUTCFullYear d = getFullYear d"

definition getUTCMonth :: "jsdate \<Rightarrow> nat" where
  "getUTCMonth d = getMonth d"

definition leapYear :: "int \<Rightarrow> bool" where
  "leapYear y = (if y mod 400 = 0 then True else if y mod 100 = 0 then False else y mod 4 = 0)"

definition daysInMonth :: "int \<Rightarrow> nat \<Rightarrow> nat" where
  "daysInMonth y m =
     (if m = 1 then (if leapYear y then 29 else 28)
      else if m = 3 \<or> m = 5 \<or> m = 8 \<or> m = 10 then 30 else 31)"

text \<open>\<^verbatim>\<open>a < b\<close> on dates compares the instants.\<close>

definition dateLess :: "jsdate \<Rightarrow> jsdate \<Rightarrow> bool" where
  "dateLess a b =
     (if getFullYear a \<noteq> getFullYear b then getFullYear a < getFullYear b
      else if getMonth a \<noteq> getMonth b then getMonth a < getMonth b
      else if getDate a \<noteq> getDate b then getDate a < getDate b
      else getTimeOfDay a < getTimeOfDay b)"

text \<open>Midnight of the first day of the month with index \<open>t = 12 * year + month\<close>.\<close>

definition firstOfMonth :: "int \<Rightarrow> jsdate" where
  "firstOfMonth t =
     \<lparr>getFullYear = t div 12, getMonth = nat (t mod 12), getDate = 1, getTimeOfDay = 0\<rparr>"

definition monthIndex :: "jsdate \<Rightarrow> int" where
  "monthIndex d = 12 * getFullYear d + int (getMonth d)"

text \<open>The same time of day, one calendar day later or earlier.\<close>

definition nextDay :: "jsdate \<Rightarrow> jsdate" where
  "nextDay d =
     (if getDate d < daysInMonth (getFullYear d) (getMonth d) then d\<lparr>getDate := getDate d + 1\<rparr>
      else if getMonth d < 11 then d\<lparr>getMonth := getMonth d + 1, getDate := 1\<rparr>
      else d\<lparr>getFullYear := getFullYear d + 1, getMonth := 0, getDate := 1\<rparr>)"

definition prevDay :: "jsdate \<Rightarrow> jsdate" where
  "prevDay d =
     (if 1 < getDate d then d\<lparr>getDate := getDate d - 1\<rparr>
      else if 0 < getMonth d
        then d\<lparr>getMonth := getMonth d - 1, getDate := daysInMonth (getFullYear d) (getMonth d - 1)\<rparr>
      else d\<lparr>getFullYear := getFullYear d - 1, getMonth := 11, getDate := 31\<rparr>)"

definition addDays :: "jsdate \<Rightarrow> int \<Rightarrow> jsdate" where
  "addDays d k = (if 0 \<le> k then (nextDay ^^ nat k) d else (prevDay ^^ nat (- k)) d)"

text \<open>
  \<^verbatim>\<open>new Date(year, month, day)\<close>: a year from 0 to 99 means 1900 + year, a month
  outside 0..11 carries into the year, and a day outside the month carries into the months
  (day 0 is the last day of the month before).
\<close>

definition newDate :: "int \<Rightarrow> int \<Rightarrow> int \<Rightarrow> jsdate" where
  "newDate y m d =
     addDays (firstOfMonth (12 * (if 0 \<le> y \<and> y \<le> 99 then 1900 + y else y) + m)) (d - 1)"

text \<open>Days since 1970-01-01 (a Thursday), and \<^verbatim>\<open>getDay\<close>: 0 is a Sunday.\<close>

definition leapsBefore :: "int \<Rightarrow> int" where
  "leapsBefore y = (y - 1) div 4 - (y - 1) div 100 + (y - 1) div 400"

definition dayNumber :: "jsdate \<Rightarrow> int" where
  "dayNumber d =
     365 * (getFullYear d - 1970) + (leapsBefore (getFullYear d) - leapsBefore 1970)
       + int (sum_list (map (daysInMonth (getFullYear d)) [0 ..< getMonth d]))
       + int (getDate d) - 1"

definition getDay :: "jsdate \<Rightarrow> nat" where
  "getDay d = nat ((dayNumber d + 4) mod 7)"

definition getUTCDay :: "jsdate \<Rightarrow> nat" where
  "getUTCDay d = getDay d"

text \<open>
  The range of \<^verbatim>\<open>Date\<close>: 100,000,000 days on each side of 1970-01-01, both ends
  included. A date that a \<^verbatim>\<open>setMonth\<close> would put outside it is an Invalid Date.
  The loop on months of \<^verbatim>\<open>computeLayout\<close> is where the program leaves the range
  (with a breakpoint below 0 it always does). The dates that \<^verbatim>\<open>new Date\<close> makes
  elsewhere are taken inside it, as they are unless \<open>from\<close> or \<open>to\<close> lies in the
  first or the last year of the range or within \<open>breakpoint\<close> months of its end.
\<close>

definition validDate :: "jsdate \<Rightarrow> bool" where
  "validDate d =
     (- 100000000 \<le> dayNumber d
      \<and> (dayNumber d < 100000000 \<or> (dayNumber d = 100000000 \<and> getTimeOfDay d = 0)))"

section \<open>The library calls: d3-time, d3-time-format, lodash\<close>

text \<open>
  \<^verbatim>\<open>timeDays(start, stop)\<close>: every midnight from the first one at or after
  \<open>start\<close> up to, and without, \<open>stop\<close>.
\<close>

definition ceilDay :: "jsdate \<Rightarrow> jsdate" where
  "ceilDay d = (if getTimeOfDay d = 0 then d else nextDay (d\<lparr>getTimeOfDay := 0\<rparr>))"

function daysFrom :: "jsdate \<Rightarrow> jsdate \<Rightarrow> jsdate list" where
  "daysFrom a b = (if dateLess a b then a # daysFrom (nextDay a) b else [])"
  by pat_completeness auto
termination
proof (relation "measures [\<lambda>(a, b). nat (getFullYear b + 1 - getFullYear a),
                          \<lambda>(a, b). 12 - getMonth a, \<lambda>(a, b). 32 - getDate a]")
  show "wf (measures [\<lambda>(a, b). nat (getFullYear b + 1 - getFullYear a),
                      \<lambda>(a, b). 12 - getMonth a, \<lambda>(a, b). 32 - getDate a])"
    by simp
next
  fix a b :: jsdate
  assume less: "dateLess a b"
  have year: "getFullYear a \<le> getFullYear b"
    using less by (simp add: dateLess_def split: if_splits)
  have dim: "daysInMonth (getFullYear a) (getMonth a) \<le> 31"
    by (simp add: daysInMonth_def)
  show "((nextDay a, b), (a, b))
          \<in> measures [\<lambda>(a, b). nat (getFullYear b + 1 - getFullYear a),
                       \<lambda>(a, b). 12 - getMonth a, \<lambda>(a, b). 32 - getDate a]"
    using year dim by (auto simp: nextDay_def)
qed

definition timeDays :: "jsdate \<Rightarrow> jsdate \<Rightarrow> jsdate list" where
  "timeDays start stop = daysFrom (ceilDay start) stop"

text \<open>
  \<^verbatim>\<open>timeMonths(start, stop)\<close>: every first of a month, at midnight, from the first
  one at or after \<open>start\<close> up to, and without, \<open>stop\<close>.
\<close>

definition ceilMonth :: "jsdate \<Rightarrow> int" where
  "ceilMonth d =
     (if getDate d = 1 \<and> getTimeOfDay d = 0 then monthIndex d else monthIndex d + 1)"

function monthsFrom :: "int \<Rightarrow> jsdate \<Rightarrow> jsdate list" where
  "monthsFrom t b =
     (if dateLess (firstOfMonth t) b then firstOfMonth t # monthsFrom (t + 1) b else [])"
  by pat_completeness auto
termination
proof (relation "measure (\<lambda>(t, b). nat (monthIndex b + 1 - t))")
  show "wf (measure (\<lambda>(t, b). nat (monthIndex b + 1 - t)))"
    by simp
next
  fix t :: int and b :: jsdate
  assume less: "dateLess (firstOfMonth t) b"
  have "t div 12 < getFullYear b \<or> (t div 12 = getFullYear b \<and> t mod 12 \<le> int (getMonth b))"
    using less by (auto simp: dateLess_def firstOfMonth_def split: if_splits)
  moreover have "t = 12 * (t div 12) + t mod 12" and "t mod 12 < 12"
    by simp_all
  ultimately have "t \<le> monthIndex b"
    unfolding monthIndex_def by linarith
  then show "((t + 1, b), (t, b)) \<in> measure (\<lambda>(t, b). nat (monthIndex b + 1 - t))"
    by simp
qed

definition timeMonths :: "jsdate \<Rightarrow> jsdate \<Rightarrow> jsdate list" where
  "timeMonths start stop = monthsFrom (ceilMonth start) stop"

text \<open>\<^verbatim>\<open>timeWeeks(start, stop)\<close>: the Sunday midnights of that range.\<close>

definition timeWeeks :: "jsdate \<Rightarrow> jsdate \<Rightarrow> jsdate list" where
  "timeWeeks start stop = filter (\<lambda>d. getDay d = 0) (timeDays start stop)"

text \<open>\<^verbatim>\<open>timeYear(date)\<close>: midnight of the first of January of the date's year.\<close>

definition timeYear :: "jsdate \<Rightarrow> jsdate" where
  "timeYear d = \<lparr>getFullYear = getFullYear d, getMonth = 0, getDate = 1, getTimeOfDay = 0\<rparr>"

text \<open>
  \<^verbatim>\<open>timeWeek.count(start, end)\<close>: both dates go back to their Sunday, and the
  weeks between the two Sundays are counted. An \<^verbatim>\<open>undefined\<close> start makes an invalid
  date, and the count is \<^verbatim>\<open>NaN\<close>.
\<close>

definition weekFloor :: "jsdate \<Rightarrow> int" where
  "weekFloor d = dayNumber d - int (getDay d)"

fun timeWeek_count :: "jsdate option \<Rightarrow> jsdate \<Rightarrow> number" where
  "timeWeek_count None e = NaN"
| "timeWeek_count (Some s) e = ofInt ((weekFloor e - weekFloor s) div 7)"

text \<open>
  \<^verbatim>\<open>timeFormat('%Y-%m-%d')\<close>: the year modulo 10000 on four digits, the month
  (from 1) and the day on two, each padded with zeros, a minus sign first for a negative value.
\<close>

definition digit :: "nat \<Rightarrow> char" where
  "digit n = ''0123456789'' ! n"

fun decimal :: "nat \<Rightarrow> string" where
  "decimal n = (if n < 10 then [digit n] else decimal (n div 10) @ [digit (n mod 10)])"

definition pad :: "int \<Rightarrow> nat \<Rightarrow> string" where
  "pad v w =
     (if v < 0 then ''-'' else [])
       @ replicate (w - length (decimal (nat \<bar>v\<bar>))) (CHR ''0'') @ decimal (nat \<bar>v\<bar>)"

definition jsRemainder :: "int \<Rightarrow> int \<Rightarrow> int" where
  "jsRemainder a b = (if a < 0 then - ((- a) mod \<bar>b\<bar>) else a mod \<bar>b\<bar>)"

definition dayFormat :: "jsdate \<Rightarrow> string" where
  "dayFormat d =
     pad (jsRemainder (getFullYear d) 10000) 4 @ ''-'' @ pad (int (getMonth d) + 1) 2
       @ ''-'' @ pad (int (getDate d)) 2"

text \<open>
  lodash \<^verbatim>\<open>range(start, end)\<close>: from \<open>start\<close> up to, and without, \<open>end\<close>, by
  steps of 1; by steps of -1 when \<open>end\<close> is below \<open>start\<close>.
\<close>

definition lodash_range :: "int \<Rightarrow> int \<Rightarrow> int list" where
  "lodash_range s e = (if s < e then [s .. e - 1] else rev [e + 1 .. s])"

section \<open>Cell size, month boxes and cell positions\<close>

record bbox =
  bbox_x :: number
  bbox_y :: number
  bbox_width :: number
  bbox_height :: number

text \<open>\<^verbatim>\<open>computeCellSize\<close>; \<open>blocks\<close> is \<^verbatim>\<open>dates.length\<close>.\<close>

definition computeCellSize ::
  "number \<Rightarrow> number \<Rightarrow> string \<Rightarrow> number \<Rightarrow> number \<Rightarrow> number \<Rightarrow> number \<Rightarrow> number \<Rightarrow> number
     \<Rightarrow> number \<Rightarrow> number" where
  "computeCellSize cwidth cheight direction blocks yearSpacing monthSpacing daySpacing
       maxRowsMonth maxColumnsGroup monthsPerGroup =
     (if direction = ''horizontal''
      then Math_min
        ((cwidth - monthSpacing * monthsPerGroup - daySpacing * maxColumnsGroup) / maxColumnsGroup)
        ((cheight - (blocks - Num 1) * yearSpacing - blocks * (maxRowsMonth * daySpacing))
           / (blocks * maxRowsMonth))
      else Math_min
        ((cwidth - (blocks - Num 1) * yearSpacing - blocks * (maxRowsMonth * daySpacing))
           / (blocks * maxRowsMonth))
        ((cheight - monthSpacing * monthsPerGroup - daySpacing * maxColumnsGroup) / maxColumnsGroup))"

text \<open>
  \<^verbatim>\<open>monthPathAndBBox\<close>, without the path (a string of printed numbers). The
  memoised version is the function itself: the cache is not part of the model.
\<close>

definition monthPathAndBBox ::
  "jsdate \<Rightarrow> number \<Rightarrow> nat \<Rightarrow> number \<Rightarrow> number \<Rightarrow> number \<Rightarrow> string \<Rightarrow> number \<Rightarrow> number \<Rightarrow> bbox" where
  "monthPathAndBBox date cellSize yearIndex yearSpacing monthSpacing daySpacing direction
       originX originY =
     (let t1 = newDate (getFullYear date) (int (getMonth date) + 1) 0;
          firstWeek = timeWeek_count (Some (timeYear date)) date;
          lastWeek = timeWeek_count (Some (timeYear t1)) t1;
          yearOffset = ofInt (int yearIndex) * (Num 7 * (cellSize + daySpacing) + yearSpacing);
          monthOffset = ofInt (int (getMonth date)) * monthSpacing;
          xO = (if direction = ''horizontal'' then originX + monthOffset else originX + yearOffset);
          yO = (if direction = ''horizontal'' then originY + yearOffset else originY + monthOffset)
      in if direction = ''horizontal''
         then \<lparr>bbox_x = xO + firstWeek * (cellSize + daySpacing),
               bbox_y = yO,
               bbox_width = xO + (lastWeek + Num 1) * (cellSize + daySpacing)
                         - (xO + firstWeek * (cellSize + daySpacing)),
               bbox_height = Num 7 * (cellSize + daySpacing)\<rparr>
         else \<lparr>bbox_x = xO,
               bbox_y = yO + firstWeek * (cellSize + daySpacing),
               bbox_width = Num 7 * (cellSize + daySpacing),
               bbox_height = yO + (lastWeek + Num 1) * (cellSize + daySpacing)
                          - (yO + firstWeek * (cellSize + daySpacing))\<rparr>)"

definition memoMonthPathAndBBox ::
  "jsdate \<Rightarrow> number \<Rightarrow> nat \<Rightarrow> number \<Rightarrow> number \<Rightarrow> number \<Rightarrow> string \<Rightarrow> number \<Rightarrow> number \<Rightarrow> bbox" where
  "memoMonthPathAndBBox = monthPathAndBBox"

text \<open>
  \<^verbatim>\<open>getElapsedMonths(from, to)\<close> reads \<^verbatim>\<open>from.getUTCMonth()\<close>: a
  \<^verbatim>\<open>TypeError\<close> when \<open>from\<close> is \<^verbatim>\<open>undefined\<close>.
\<close>

fun getElapsedMonths :: "jsdate option \<Rightarrow> jsdate \<Rightarrow> error + int" where
  "getElapsedMonths None to = Inl TypeError"
| "getElapsedMonths (Some from) to =
     Inr (int (getUTCMonth to) - int (getUTCMonth from)
            + 12 * (getUTCFullYear to - getUTCFullYear from))"

definition getWeekOfTheMonth :: "jsdate \<Rightarrow> int" where
  "getWeekOfTheMonth date =
     (let firstWeekday = getDay (newDate (getUTCFullYear date) (int (getUTCMonth date)) 1);
          offsetDate = int (getDate date) + int firstWeekday - 1
      in offsetDate div 7)"

definition getA :: "jsdate \<Rightarrow> nat \<Rightarrow> number \<Rightarrow> number \<Rightarrow> number \<Rightarrow> number \<Rightarrow> number" where
  "getA d blockIndex yearSpacing daySpacing maxRowsMonth cellSize =
     ofInt (getWeekOfTheMonth d) * (cellSize + daySpacing) + daySpacing / Num 2
       + ofInt (int blockIndex) * (yearSpacing + maxRowsMonth * (cellSize + daySpacing))"

definition getB :: "jsdate \<Rightarrow> jsdate option \<Rightarrow> number \<Rightarrow> number \<Rightarrow> number \<Rightarrow> error + number" where
  "getB d startDate monthSpacing daySpacing cellSize =
     bindE (getElapsedMonths startDate d) (\<lambda>elapsedMonths.
       Inr (ofInt elapsedMonths * Num 7 * (cellSize + daySpacing)
              + ofInt (int (getDay d)) * (cellSize + daySpacing) + daySpacing / Num 2
              + ofInt elapsedMonths * monthSpacing))"

definition getC :: "jsdate \<Rightarrow> nat \<Rightarrow> number \<Rightarrow> number \<Rightarrow> number \<Rightarrow> number \<Rightarrow> number" where
  "getC d blockIndex yearSpacing daySpacing maxRowsMonth cellSize =
     ofInt (int (getDay d)) * (cellSize + daySpacing) + daySpacing / Num 2
       + ofInt (int blockIndex) * (yearSpacing + maxRowsMonth * (cellSize + daySpacing))"

definition getD :: "jsdate \<Rightarrow> jsdate option \<Rightarrow> number \<Rightarrow> number \<Rightarrow> number \<Rightarrow> error + number" where
  "getD d startDate monthSpacing daySpacing cellSize =
     (let elapsedWeeks = timeWeek_count startDate d
      in bindE (getElapsedMonths startDate d) (\<lambda>elapsedMonths.
           Inr (elapsedWeeks * (cellSize + daySpacing) + daySpacing / Num 2
                  + ofInt elapsedMonths * monthSpacing)))"

text \<open>
  The four positioning closures, applied: \<open>x\<close> is computed before \<open>y\<close>. The two that
  use \<open>getA\<close> call it with five arguments, so that its \<open>cellSize\<close> is
  \<^verbatim>\<open>undefined\<close> and its arithmetic \<open>NaN\<close>.
\<close>

definition cellPositionHorizontalVertical ::
  "number \<Rightarrow> number \<Rightarrow> number \<Rightarrow> number \<Rightarrow> number
     \<Rightarrow> number \<Rightarrow> number \<Rightarrow> jsdate \<Rightarrow> nat \<Rightarrow> jsdate option \<Rightarrow> error + number \<times> number" where
  "cellPositionHorizontalVertical cellSize yearSpacing monthSpacing daySpacing maxRowsMonth
       originX originY d blockIndex startDate =
     bindE (getD d startDate monthSpacing daySpacing cellSize) (\<lambda>gd.
       Inr (originX + gd,
            originY + getC d blockIndex yearSpacing daySpacing maxRowsMonth cellSize))"

definition cellPositionVerticalHorizontal ::
  "number \<Rightarrow> number \<Rightarrow> number \<Rightarrow> number \<Rightarrow> number
     \<Rightarrow> number \<Rightarrow> number \<Rightarrow> jsdate \<Rightarrow> nat \<Rightarrow> jsdate option \<Rightarrow> error + number \<times> number" where
  "cellPositionVerticalHorizontal cellSize yearSpacing monthSpacing daySpacing maxRowsMonth
       originX originY d blockIndex startDate =
     (let px = originX + getC d blockIndex yearSpacing daySpacing maxRowsMonth cellSize
      in bindE (getD d startDate monthSpacing daySpacing cellSize) (\<lambda>gd.
           Inr (px, originY + gd)))"

definition cellPositionVerticalVertical ::
  "number \<Rightarrow> number \<Rightarrow> number \<Rightarrow> number \<Rightarrow> number
     \<Rightarrow> number \<Rightarrow> number \<Rightarrow> jsdate \<Rightarrow> nat \<Rightarrow> jsdate option \<Rightarrow> error + number \<times> number" where
  "cellPositionVerticalVertical cellSize yearSpacing monthSpacing daySpacing maxRowsMonth
       originX originY d blockIndex startDate =
     (let px = originX + getA d blockIndex yearSpacing daySpacing maxRowsMonth NaN
      in bindE (getB d startDate monthSpacing daySpacing cellSize) (\<lambda>gb.
           Inr (px, originY + gb)))"

definition cellPositionHorizontalHorizontal ::
  "number \<Rightarrow> number \<Rightarrow> number \<Rightarrow> number \<Rightarrow> number
     \<Rightarrow> number \<Rightarrow> number \<Rightarrow> jsdate \<Rightarrow> nat \<Rightarrow> jsdate option \<Rightarrow> error + number \<times> number" where
  "cellPositionHorizontalHorizontal cellSize yearSpacing monthSpacing daySpacing maxRowsMonth
       originX originY d blockIndex startDate =
     bindE (getB d startDate monthSpacing daySpacing cellSize) (\<lambda>gb.
       Inr (originX + gb,
            originY + getA d blockIndex yearSpacing daySpacing maxRowsMonth NaN))"

section \<open>Descriptors, data binding and legend positions\<close>

text \<open>
  An input record \<^verbatim>\<open>{day, value}\<close>, and a day cell
  \<^verbatim>\<open>{date, day, size, x, y}\<close>, to which \<^verbatim>\<open>bindDaysData\<close> adds
  \<^verbatim>\<open>color\<close>, \<^verbatim>\<open>value\<close> and \<^verbatim>\<open>data\<close>: a field that an object
  does not have is \<open>None\<close>.
\<close>

record 'v datum =
  datum_day :: string
  datum_value :: 'v

record 'v dayCell =
  cell_date :: jsdate
  cell_day :: string
  cell_size :: number
  cell_x :: number
  cell_y :: number
  cell_color :: "string option"
  cell_value :: "'v option"
  cell_data :: "'v datum option"

record monthDescriptor =
  month_date :: jsdate
  month_year :: int
  month_month :: nat
  month_bbox :: bbox

record yearDescriptor =
  year_year :: jsdate
  year_bbox :: bbox

text \<open>
  \<^verbatim>\<open>bindDaysData\<close>. The source writes into the day objects it is given and
  returns them; the model returns the objects as they are after the call.
\<close>

definition bindDay :: "'v dayCell \<Rightarrow> 'v datum \<Rightarrow> ('v \<Rightarrow> string) \<Rightarrow> 'v dayCell" where
  "bindDay day dayData colorScale =
     (if datum_day dayData = cell_day day
      then day\<lparr>cell_value := Some (datum_value dayData),
                cell_color := Some (colorScale (datum_value dayData)),
                cell_data := Some dayData\<rparr>
      else day)"

definition bindDaysData ::
  "'v dayCell list \<Rightarrow> 'v datum list \<Rightarrow> ('v \<Rightarrow> string) \<Rightarrow> string \<Rightarrow> 'v dayCell list" where
  "bindDaysData days data colorScale emptyColor =
     map (\<lambda>day. foldl (\<lambda>day dayData. bindDay day dayData colorScale)
                   (day\<lparr>cell_color := Some emptyColor\<rparr>) data) days"

text \<open>
  The legend functions return each descriptor with \<^verbatim>\<open>x\<close>, \<^verbatim>\<open>y\<close> and
  \<^verbatim>\<open>rotation\<close> added.
\<close>

record 'a legend =
  legend_of :: 'a
  legend_x :: number
  legend_y :: number
  legend_rotation :: number

definition computeYearLegendPositions ::
  "yearDescriptor list \<Rightarrow> string \<Rightarrow> string \<Rightarrow> number \<Rightarrow> yearDescriptor legend list" where
  "computeYearLegendPositions years direction position offset =
     map (\<lambda>year.
       if direction = ''horizontal'' \<and> position = ''before''
       then \<lparr>legend_of = year,
             legend_x = bbox_x (year_bbox year) - offset,
             legend_y = bbox_y (year_bbox year) + bbox_height (year_bbox year) / Num 2,
             legend_rotation = Num (- 90)\<rparr>
       else if direction = ''horizontal'' \<and> position = ''after''
       then \<lparr>legend_of = year,
             legend_x = bbox_x (year_bbox year) + bbox_width (year_bbox year) + offset,
             legend_y = bbox_y (year_bbox year) + bbox_height (year_bbox year) / Num 2,
             legend_rotation = Num (- 90)\<rparr>
       else if direction = ''vertical'' \<and> position = ''before''
       then \<lparr>legend_of = year,
             legend_x = bbox_x (year_bbox year) + bbox_width (year_bbox year) / Num 2,
             legend_y = bbox_y (year_bbox year) - offset,
             legend_rotation = Num 0\<rparr>
       else \<lparr>legend_of = year,
             legend_x = bbox_x (year_bbox year) + bbox_width (year_bbox year) / Num 2,
             legend_y = bbox_y (year_bbox year) + bbox_height (year_bbox year) + offset,
             legend_rotation = Num 0\<rparr>) years"

definition computeMonthLegendPositions ::
  "monthDescriptor list \<Rightarrow> string \<Rightarrow> string \<Rightarrow> number \<Rightarrow> monthDescriptor legend list" where
  "computeMonthLegendPositions months direction position offset =
     map (\<lambda>month.
       if direction = ''horizontal'' \<and> position = ''before''
       then \<lparr>legend_of = month,
             legend_x = bbox_x (month_bbox month) + bbox_width (month_bbox month) / Num 2,
             legend_y = bbox_y (month_bbox month) - offset,
             legend_rotation = Num 0\<rparr>
       else if direction = ''horizontal'' \<and> position = ''after''
       then \<lparr>legend_of = month,
             legend_x = bbox_x (month_bbox month) + bbox_width (month_bbox month) / Num 2,
             legend_y = bbox_y (month_bbox month) + bbox_height (month_bbox month) + offset,
             legend_rotation = Num 0\<rparr>
       else if direction = ''vertical'' \<and> position = ''before''
       then \<lparr>legend_of = month,
             legend_x = bbox_x (month_bbox month) - offset,
             legend_y = bbox_y (month_bbox month) + bbox_height (month_bbox month) / Num 2,
             legend_rotation = Num (- 90)\<rparr>
       else \<lparr>legend_of = month,
             legend_x = bbox_x (month_bbox month) + bbox_width (month_bbox month) + offset,
             legend_y = bbox_y (month_bbox month) + bbox_height (month_bbox month) / Num 2,
             legend_rotation = Num (- 90)\<rparr>) months"

section \<open>The layout\<close>

text \<open>
  The argument of \<^verbatim>\<open>computeLayout\<close>. \<open>fromDate\<close> and \<open>toDate\<close> are the two dates
  after their conversion (\<^verbatim>\<open>isDate(from) ? from : new Date(from)\<close>); the
  breakpoint is a whole number.
\<close>

record config =
  width :: number
  height :: number
  fromDate :: jsdate
  toDate :: jsdate
  direction :: string
  yearSpacing :: number
  monthSpacing :: number
  daySpacing :: number
  align :: string
  weekDirection :: string
  granularity :: string
  breakpoint :: int

record 'v layout =
  years :: "yearDescriptor list"
  months :: "monthDescriptor list"
  days :: "'v dayCell list"
  cellSize :: number
  calendarWidth :: number
  calendarHeight :: number
  originX :: number
  originY :: number

text \<open>
  Granularity \<^verbatim>\<open>'year'\<close>: \<^verbatim>\<open>yearRange.splice(0, breakpoint)\<close> takes the next
  years off the range until none is left. With a breakpoint of 0 or less it takes nothing,
  and the loop never ends.
\<close>

function chunkYears :: "int \<Rightarrow> int list \<Rightarrow> error + (jsdate \<times> jsdate) list" where
  "chunkYears bp yearRange =
     (if yearRange = [] then Inr []
      else if bp \<le> 0 then Inl Diverges
      else (let arr = take (nat bp) yearRange
            in bindE (chunkYears bp (drop (nat bp) yearRange)) (\<lambda>rest.
                 Inr ((newDate (hd arr) 0 1, newDate (last arr + 1) 0 1) # rest))))"
  by pat_completeness auto
termination
  by (relation "measure (\<lambda>(bp, yearRange). length yearRange)") auto

text \<open>
  Granularity \<^verbatim>\<open>'month'\<close>. \<open>date\<close> and \<open>aux\<close> are two copies of one instant, the
  first of a month at midnight, each time the loop tests \<^verbatim>\<open>date < toDate\<close>: the
  loop variable is that month's index \<open>t\<close>. \<open>scanMonths\<close> is the inner loop on \<open>i\<close>
  and \<open>scanSum\<close> the \<^verbatim>\<open>days + weekDay\<close> of its turn \<open>i\<close>; \<open>monthBlocks\<close> is
  the outer loop. \<^verbatim>\<open>maxRowsMonth\<close> starts \<^verbatim>\<open>undefined\<close>, which is \<open>NaN\<close>
  here: both differ from 6, and \<^verbatim>\<open>Math.max(undefined, 4)\<close> is \<^verbatim>\<open>NaN\<close>.
\<close>

definition scanSum :: "int \<Rightarrow> int \<Rightarrow> int" where
  "scanSum t i =
     (let weekDay = getUTCDay (firstOfMonth t);
          days = getDate (newDate (getUTCFullYear (firstOfMonth t))
                            (int (getUTCMonth (firstOfMonth t)) + i) 0)
      in int days + int weekDay)"

function scanMonths :: "int \<Rightarrow> int \<Rightarrow> int \<Rightarrow> number \<Rightarrow> number" where
  "scanMonths t bp i maxRowsMonth =
     (if i < bp
      then (if scanSum t i \<ge> 37 then Num 6
            else if scanSum t i = 28 then scanMonths t bp (i + 1) (Math_max maxRowsMonth (Num 4))
            else scanMonths t bp (i + 1) (Num 5))
      else maxRowsMonth)"
  by pat_completeness auto
termination
  by (relation "measure (\<lambda>(t, bp, i, m). nat (bp - i))") auto

text \<open>
  \<^verbatim>\<open>aux.setMonth(aux.getMonth() + breakpoint)\<close> makes an Invalid Date of a month
  that lies outside the range of \<^verbatim>\<open>Date\<close>. As the loop variable an Invalid Date
  is not less than \<open>toDate\<close> and ends the loop: with a breakpoint below 0 that is how the
  loop ends, and with a breakpoint of 0 it never does. As the end of a block it is read
  only as the \<open>stop\<close> of \<^verbatim>\<open>timeDays\<close>, \<^verbatim>\<open>timeMonths\<close> and
  \<^verbatim>\<open>timeWeeks\<close>, which return the empty list for an Invalid Date as they do for a
  \<open>stop\<close> that is the \<open>start\<close> itself: \<open>blockEnd\<close> has the start of the block where
  the code has an Invalid Date.
\<close>

definition blockEnd :: "int \<Rightarrow> int \<Rightarrow> jsdate" where
  "blockEnd t bp =
     (if validDate (firstOfMonth (t + bp)) then firstOfMonth (t + bp) else firstOfMonth t)"

function monthBlocks ::
  "string \<Rightarrow> int \<Rightarrow> jsdate \<Rightarrow> int \<Rightarrow> number \<Rightarrow> error + ((jsdate \<times> jsdate) list \<times> number)" where
  "monthBlocks wd t toD bp maxRowsMonth =
     (if validDate (firstOfMonth t) \<and> dateLess (firstOfMonth t) toD
      then (if bp = 0 then Inl Diverges
            else bindE
              (monthBlocks wd (t + bp) toD bp
                 (if wd = ''horizontal'' \<and> maxRowsMonth \<noteq> Num 6
                  then scanMonths t bp 0 maxRowsMonth else maxRowsMonth))
              (\<lambda>rest. Inr ((firstOfMonth t, blockEnd t bp) # fst rest, snd rest)))
      else Inr ([], maxRowsMonth))"
  by pat_completeness auto
termination
proof (relation "measure (\<lambda>(wd, t, toD, bp, m).
                   if 0 < bp then nat (monthIndex toD + 1 - t) else nat (t + 3600001))")
  show "wf (measure (\<lambda>(wd, t, toD, bp, m).
              if 0 < bp then nat (monthIndex toD + 1 - t) else nat (t + 3600001)))"
    by simp
next
  fix wd :: string and t bp :: int and toD :: jsdate and maxRowsMonth :: number
  assume test: "validDate (firstOfMonth t) \<and> dateLess (firstOfMonth t) toD" and bp: "bp \<noteq> 0"
  have split: "t = 12 * (t div 12) + t mod 12" and mod: "0 \<le> t mod 12" "t mod 12 < 12"
    by simp_all
  have "t div 12 < getFullYear toD
          \<or> (t div 12 = getFullYear toD \<and> t mod 12 \<le> int (getMonth toD))"
    using test by (auto simp: dateLess_def firstOfMonth_def split: if_splits)
  then have upper: "t \<le> monthIndex toD"
    unfolding monthIndex_def using split mod by linarith
  have dim: "daysInMonth y k \<le> 31" for y k
    by (simp add: daysInMonth_def)
  have month_days: "sum_list (map (daysInMonth y) ms) \<le> 31 * length ms" for y ms
  proof (induction ms)
    case (Cons k ms)
    then show ?case
      using dim [of y k] by simp
  qed simp
  define y where "y = t div 12"
  define s where "s = int (sum_list (map (daysInMonth y) [0 ..< nat (t mod 12)]))"
  define leaps where "leaps = leapsBefore y"
  have s: "s \<le> 341"
    unfolding s_def using month_days [of y "[0 ..< nat (t mod 12)]"] mod by simp
  have "4 * ((y - 1) div 4) \<le> y - 1" "y - 100 \<le> 100 * ((y - 1) div 100)"
    "400 * ((y - 1) div 400) \<le> y - 1"
    by linarith+
  then have "400 * ((y - 1) div 4) \<le> 100 * (y - 1)"
    "4 * (y - 100) \<le> 400 * ((y - 1) div 100)" "400 * ((y - 1) div 400) \<le> y - 1"
    by simp_all
  then have leaps: "400 * leaps \<le> 97 * y + 299"
    by (simp add: leaps_def leapsBefore_def algebra_simps)
  have "leapsBefore 1970 = 477"
    by (simp add: leapsBefore_def)
  then have day: "dayNumber (firstOfMonth t) = 365 * y + leaps + s - 719527"
    by (simp add: dayNumber_def firstOfMonth_def y_def s_def leaps_def)
  have "- 100000000 \<le> dayNumber (firstOfMonth t)"
    using test by (simp add: validDate_def)
  then have "- 300000 \<le> y"
    unfolding day using s leaps by linarith
  then have lower: "- 3600000 \<le> t"
    unfolding y_def using split mod by linarith
  show "((wd, t + bp, toD, bp,
           if wd = ''horizontal'' \<and> maxRowsMonth \<noteq> Num 6
           then scanMonths t bp 0 maxRowsMonth else maxRowsMonth),
         (wd, t, toD, bp, maxRowsMonth))
          \<in> measure (\<lambda>(wd, t, toD, bp, m).
               if 0 < bp then nat (monthIndex toD + 1 - t) else nat (t + 3600001))"
    using bp upper lower by simp
qed

text \<open>The blocks (\<^verbatim>\<open>dates\<close>) and \<^verbatim>\<open>maxRowsMonth\<close> as the first part of \<^verbatim>\<open>computeLayout\<close> leaves them.\<close>

definition partitionDates :: "config \<Rightarrow> error + ((jsdate \<times> jsdate) list \<times> number)" where
  "partitionDates cfg =
     (if granularity cfg = ''year''
      then bindE (chunkYears (breakpoint cfg)
                    (lodash_range (getUTCFullYear (fromDate cfg)) (getUTCFullYear (toDate cfg) + 1)))
             (\<lambda>dates. Inr (dates, if weekDirection cfg = ''horizontal'' then Num 6 else NaN))
      else monthBlocks (weekDirection cfg)
             (monthIndex (newDate (getUTCFullYear (fromDate cfg)) (int (getUTCMonth (fromDate cfg))) 1))
             (toDate cfg) (breakpoint cfg) NaN)"

definition monthsPerGroup :: "config \<Rightarrow> number" where
  "monthsPerGroup cfg =
     (if granularity cfg = ''year'' then ofInt (breakpoint cfg * 12) else ofInt (breakpoint cfg))"

text \<open>\<^verbatim>\<open>Math.max(...values)\<close>: minus infinity when there is no value.\<close>

fun Math_max_spread :: "nat list \<Rightarrow> number" where
  "Math_max_spread [] = MinusInfinity"
| "Math_max_spread (v # vs) = Math_max (ofInt (int v)) (Math_max_spread vs)"

definition maxColumnsGroup :: "config \<Rightarrow> (jsdate \<times> jsdate) list \<Rightarrow> number" where
  "maxColumnsGroup cfg dates =
     (if weekDirection cfg = ''vertical''
      then Math_max_spread (map (\<lambda>date. length (timeWeeks (fst date) (snd date))) dates) + Num 1
      else Num 7 * monthsPerGroup cfg)"

definition rowsMonth :: "config \<Rightarrow> number \<Rightarrow> number" where
  "rowsMonth cfg maxRowsMonth = (if weekDirection cfg = ''vertical'' then Num 7 else maxRowsMonth)"

definition cellSizeOf :: "config \<Rightarrow> (jsdate \<times> jsdate) list \<Rightarrow> number \<Rightarrow> number" where
  "cellSizeOf cfg dates maxRowsMonth =
     computeCellSize (width cfg) (height cfg) (direction cfg) (ofInt (int (length dates)))
       (yearSpacing cfg) (monthSpacing cfg) (daySpacing cfg)
       (rowsMonth cfg maxRowsMonth) (maxColumnsGroup cfg dates) (monthsPerGroup cfg)"

definition monthsSize :: "config \<Rightarrow> (jsdate \<times> jsdate) list \<Rightarrow> number \<Rightarrow> number" where
  "monthsSize cfg dates maxRowsMonth =
     cellSizeOf cfg dates maxRowsMonth * maxColumnsGroup cfg dates
       + daySpacing cfg * maxColumnsGroup cfg dates + monthSpacing cfg * monthsPerGroup cfg"

definition yearsSize :: "config \<Rightarrow> (jsdate \<times> jsdate) list \<Rightarrow> number \<Rightarrow> number" where
  "yearsSize cfg dates maxRowsMonth =
     (cellSizeOf cfg dates maxRowsMonth + daySpacing cfg) * rowsMonth cfg maxRowsMonth
         * ofInt (int (length dates))
       + yearSpacing cfg * (ofInt (int (length dates)) - Num 1)"

definition calendarWidthOf :: "config \<Rightarrow> (jsdate \<times> jsdate) list \<Rightarrow> number \<Rightarrow> number" where
  "calendarWidthOf cfg dates maxRowsMonth =
     (if direction cfg = ''horizontal'' then monthsSize cfg dates maxRowsMonth
      else yearsSize cfg dates maxRowsMonth)"

definition calendarHeightOf :: "config \<Rightarrow> (jsdate \<times> jsdate) list \<Rightarrow> number \<Rightarrow> number" where
  "calendarHeightOf cfg dates maxRowsMonth =
     (if direction cfg = ''horizontal'' then yearsSize cfg dates maxRowsMonth
      else monthsSize cfg dates maxRowsMonth)"

definition cellPosition ::
  "config \<Rightarrow> number \<Rightarrow> number
     \<Rightarrow> number \<Rightarrow> number \<Rightarrow> jsdate \<Rightarrow> nat \<Rightarrow> jsdate option \<Rightarrow> error + number \<times> number" where
  "cellPosition cfg cs maxRowsMonth =
     (if direction cfg = ''horizontal''
      then (if weekDirection cfg = ''horizontal''
            then cellPositionHorizontalHorizontal cs (yearSpacing cfg) (monthSpacing cfg)
                   (daySpacing cfg) maxRowsMonth
            else cellPositionHorizontalVertical cs (yearSpacing cfg) (monthSpacing cfg)
                   (daySpacing cfg) maxRowsMonth)
      else (if weekDirection cfg = ''horizontal''
            then cellPositionVerticalHorizontal cs (yearSpacing cfg) (monthSpacing cfg)
                   (daySpacing cfg) maxRowsMonth
            else cellPositionVerticalVertical cs (yearSpacing cfg) (monthSpacing cfg)
                   (daySpacing cfg) maxRowsMonth))"

text \<open>
  The body of \<^verbatim>\<open>dates.forEach((date, i) => ...)\<close>, in its three steps. The day
  cells: \<^verbatim>\<open>cellPosition(originX, originY, dayDate, i)\<close> is called with four
  arguments, so that the closure's fifth parameter \<open>startDate\<close> is \<^verbatim>\<open>undefined\<close>.
\<close>

definition blockDays ::
  "config \<Rightarrow> number \<Rightarrow> number \<Rightarrow> number \<Rightarrow> number \<Rightarrow> nat \<Rightarrow> jsdate \<times> jsdate
     \<Rightarrow> error + 'v dayCell list" where
  "blockDays cfg cs maxRowsMonth ox oy i date =
     mapE (\<lambda>dayDate.
         bindE (cellPosition cfg cs maxRowsMonth ox oy dayDate i None) (\<lambda>p.
           Inr \<lparr>cell_date = dayDate, cell_day = dayFormat dayDate, cell_size = cs,
                cell_x = fst p, cell_y = snd p,
                cell_color = None, cell_value = None, cell_data = None\<rparr>))
       (timeDays (fst date) (snd date))"

definition blockMonths ::
  "config \<Rightarrow> number \<Rightarrow> number \<Rightarrow> number \<Rightarrow> nat \<Rightarrow> jsdate \<times> jsdate \<Rightarrow> monthDescriptor list" where
  "blockMonths cfg cs ox oy i date =
     map (\<lambda>monthDate.
         \<lparr>month_date = monthDate, month_year = getFullYear monthDate,
          month_month = getMonth monthDate,
          month_bbox = memoMonthPathAndBBox monthDate cs i (yearSpacing cfg) (monthSpacing cfg)
                         (daySpacing cfg) (direction cfg) ox oy\<rparr>)
       (timeMonths (fst date) (snd date))"

text \<open>
  \<^verbatim>\<open>yearMonths[k].bbox\<close>: past the end of the list \<^verbatim>\<open>yearMonths[k]\<close> is
  \<^verbatim>\<open>undefined\<close>, and reading its \<^verbatim>\<open>bbox\<close> is a \<^verbatim>\<open>TypeError\<close>.
  The year's box reads index 0 first, then index 11.
\<close>

definition bboxAt :: "monthDescriptor list \<Rightarrow> nat \<Rightarrow> error + bbox" where
  "bboxAt yearMonths k =
     (if k < length yearMonths then Inr (month_bbox (yearMonths ! k))
      else Inl (IndexTypeError k))"

definition blockYear :: "jsdate \<times> jsdate \<Rightarrow> monthDescriptor list \<Rightarrow> error + yearDescriptor" where
  "blockYear date yearMonths =
     bindE (bboxAt yearMonths 0) (\<lambda>b0.
     bindE (bboxAt yearMonths 11) (\<lambda>b11.
       Inr \<lparr>year_year = fst date,
            year_bbox = \<lparr>bbox_x = bbox_x b0, bbox_y = bbox_y b0,
                         bbox_width = bbox_x b11 - bbox_x b0 + bbox_width b11,
                         bbox_height = bbox_y b11 - bbox_y b0 + bbox_height b11\<rparr>\<rparr>))"

definition processBlock ::
  "config \<Rightarrow> number \<Rightarrow> number \<Rightarrow> number \<Rightarrow> number
     \<Rightarrow> yearDescriptor list \<times> monthDescriptor list \<times> 'v dayCell list \<Rightarrow> nat \<Rightarrow> jsdate \<times> jsdate
     \<Rightarrow> error + yearDescriptor list \<times> monthDescriptor list \<times> 'v dayCell list" where
  "processBlock cfg cs maxRowsMonth ox oy acc i date =
     bindE (blockDays cfg cs maxRowsMonth ox oy i date) (\<lambda>newDays.
       let yearMonths = blockMonths cfg cs ox oy i date
       in bindE (blockYear date yearMonths) (\<lambda>yr.
            Inr (fst acc @ [yr], fst (snd acc) @ yearMonths, snd (snd acc) @ newDays)))"

fun forEachBlock ::
  "('s \<Rightarrow> nat \<Rightarrow> 'b \<Rightarrow> error + 's) \<Rightarrow> 's \<Rightarrow> nat \<Rightarrow> 'b list \<Rightarrow> error + 's" where
  "forEachBlock f acc i [] = Inr acc"
| "forEachBlock f acc i (b # bs) = bindE (f acc i b) (\<lambda>acc'. forEachBlock f acc' (Suc i) bs)"

text \<open>
  \<^verbatim>\<open>computeLayout\<close>. \<^verbatim>\<open>alignBox\<close> comes from another package
  (\<^verbatim>\<open>@nivo/core\<close>) and is a parameter: from the box of the calendar, the box of the
  canvas and the alignment it gives the origin.
\<close>

definition computeLayout ::
  "(bbox \<Rightarrow> bbox \<Rightarrow> string \<Rightarrow> number \<times> number) \<Rightarrow> config \<Rightarrow> error + 'v layout" where
  "computeLayout alignBox cfg =
     bindE (partitionDates cfg) (\<lambda>part.
       let dates = fst part;
           maxRowsMonth = rowsMonth cfg (snd part);
           cs = cellSizeOf cfg dates (snd part);
           cw = calendarWidthOf cfg dates (snd part);
           ch = calendarHeightOf cfg dates (snd part);
           origin = alignBox
             \<lparr>bbox_x = Num 0, bbox_y = Num 0, bbox_width = cw, bbox_height = ch\<rparr>
             \<lparr>bbox_x = Num 0, bbox_y = Num 0, bbox_width = width cfg, bbox_height = height cfg\<rparr>
             (align cfg)
       in bindE (forEachBlock (processBlock cfg cs maxRowsMonth (fst origin) (snd origin))
                   ([], [], []) 0 dates) (\<lambda>acc.
            Inr \<lparr>years = fst acc, months = fst (snd acc), days = snd (snd acc),
                 cellSize = cs, calendarWidth = cw, calendarHeight = ch,
                 originX = fst origin, originY = snd origin\<rparr>))"

section \<open>The scan as the specification words it, and the inputs used below\<close>

text \<open>
  The specification's account of \<^verbatim>\<open>maxRowsMonth\<close>, word for word, to be compared
  with \<open>scanMonths\<close> and \<open>monthBlocks\<close> above: for each of the \<open>breakpoint\<close> months of
  the first block, the days of that month plus the weekday of its first day; 37 or more gives
  6 and ends the scan, exactly 28 keeps 4 as a running maximum, anything else gives 5.
\<close>

definition specSum :: "int \<Rightarrow> int" where
  "specSum t = int (daysInMonth (t div 12) (nat (t mod 12))) + int (getDay (firstOfMonth t))"

fun specScan :: "int list \<Rightarrow> nat \<Rightarrow> nat" where
  "specScan [] rows = rows"
| "specScan (t # ts) rows =
     (if 37 \<le> specSum t then 6
      else if specSum t = 28 then specScan ts (max rows 4)
      else specScan ts 5)"

definition specMaxRowsMonth :: "config \<Rightarrow> nat" where
  "specMaxRowsMonth cfg =
     specScan (map (\<lambda>j. monthIndex (fromDate cfg) + int j) [0 ..< nat (breakpoint cfg)]) 0"

text \<open>
  Configurations and data the theorems below are evaluated at. \<open>cfg2023\<close> is the
  specification's own scenario (the year 2023, one year per block), for a direction and a
  week direction.
\<close>

definition cfg2023 :: "string \<Rightarrow> string \<Rightarrow> config" where
  "cfg2023 dir wd = \<lparr>width = Num 800, height = Num 200,
     fromDate = \<lparr>getFullYear = 2023, getMonth = 0, getDate = 1, getTimeOfDay = 0\<rparr>,
     toDate = \<lparr>getFullYear = 2023, getMonth = 11, getDate = 31, getTimeOfDay = 0\<rparr>,
     direction = dir, yearSpacing = Num 30, monthSpacing = Num 0, daySpacing = Num 2,
     align = ''center'', weekDirection = wd, granularity = ''year'', breakpoint = 1\<rparr>"


definition cfgBackward :: config where
  "cfgBackward = \<lparr>width = Num 800, height = Num 200,
     fromDate = \<lparr>getFullYear = 2023, getMonth = 0, getDate = 15, getTimeOfDay = 0\<rparr>,
     toDate = \<lparr>getFullYear = 2023, getMonth = 2, getDate = 10, getTimeOfDay = 0\<rparr>,
     direction = ''horizontal'', yearSpacing = Num 30, monthSpacing = Num 0, daySpacing = Num 2,
     align = ''center'', weekDirection = ''horizontal'', granularity = ''month'',
     breakpoint = - 1\<rparr>"

definition cfgEmptyYears :: "string \<Rightarrow> config" where
  "cfgEmptyYears dir = \<lparr>width = Num 800, height = Num 200,
     fromDate = \<lparr>getFullYear = 2024, getMonth = 0, getDate = 1, getTimeOfDay = 0\<rparr>,
     toDate = \<lparr>getFullYear = 2023, getMonth = 11, getDate = 31, getTimeOfDay = 0\<rparr>,
     direction = dir, yearSpacing = Num 30, monthSpacing = Num 0, daySpacing = Num 2,
     align = ''center'', weekDirection = ''horizontal'', granularity = ''year'', breakpoint = 1\<rparr>"

definition cfgJulAug2020 :: config where
  "cfgJulAug2020 = \<lparr>width = Num 800, height = Num 200,
     fromDate = \<lparr>getFullYear = 2020, getMonth = 6, getDate = 1, getTimeOfDay = 0\<rparr>,
     toDate = \<lparr>getFullYear = 2020, getMonth = 7, getDate = 15, getTimeOfDay = 0\<rparr>,
     direction = ''horizontal'', yearSpacing = Num 30, monthSpacing = Num 0, daySpacing = Num 2,
     align = ''center'', weekDirection = ''horizontal'', granularity = ''month'', breakpoint = 1\<rparr>"

definition cfgUnknown :: config where
  "cfgUnknown = \<lparr>width = Num 800, height = Num 200,
     fromDate = \<lparr>getFullYear = 2023, getMonth = 0, getDate = 1, getTimeOfDay = 0\<rparr>,
     toDate = \<lparr>getFullYear = 2023, getMonth = 0, getDate = 1, getTimeOfDay = 0\<rparr>,
     direction = ''diagonal'', yearSpacing = Num 30, monthSpacing = Num 0, daySpacing = Num 2,
     align = ''center'', weekDirection = ''sideways'', granularity = ''week'', breakpoint = 1\<rparr>"

definition yearsU :: "yearDescriptor list" where
  "yearsU = [\<lparr>year_year = \<lparr>getFullYear = 2023, getMonth = 0, getDate = 1, getTimeOfDay = 0\<rparr>,
              year_bbox = \<lparr>bbox_x = Num 10, bbox_y = Num 20, bbox_width = Num 300,
                           bbox_height = Num 70\<rparr>\<rparr>]"

definition cfgZeroWidth :: config where
  "cfgZeroWidth = \<lparr>width = Num 0, height = Num 200,
     fromDate = \<lparr>getFullYear = 2023, getMonth = 0, getDate = 1, getTimeOfDay = 0\<rparr>,
     toDate = \<lparr>getFullYear = 2023, getMonth = 11, getDate = 31, getTimeOfDay = 0\<rparr>,
     direction = ''horizontal'', yearSpacing = Num 30, monthSpacing = Num 0, daySpacing = Num 2,
     align = ''center'', weekDirection = ''horizontal'', granularity = ''year'', breakpoint = 1\<rparr>"

definition cellsW :: "int dayCell list" where
  "cellsW = map (\<lambda>d. \<lparr>cell_date = d, cell_day = dayFormat d, cell_size = Num 10,
                          cell_x = Num 0, cell_y = Num 0,
                          cell_color = None, cell_value = None, cell_data = None\<rparr>)
              [newDate 2023 0 1, newDate 2023 0 2]"

definition dataW :: "int datum list" where
  "dataW = [\<lparr>datum_day = ''2023-01-01'', datum_value = 3\<rparr>,
            \<lparr>datum_day = ''2023-02-14'', datum_value = 4\<rparr>,
            \<lparr>datum_day = ''2023-01-01'', datum_value = 7\<rparr>]"

definition scaleW :: "int \<Rightarrow> string" where
  "scaleW v = (if v < 5 then ''low'' else ''high'')"

definition yearsW :: "yearDescriptor list" where
  "yearsW = [\<lparr>year_year = newDate 2023 0 1,
              year_bbox = \<lparr>bbox_x = Num 10, bbox_y = Num 20, bbox_width = Num 300,
                           bbox_height = Num 70\<rparr>\<rparr>]"

definition monthsW :: "monthDescriptor list" where
  "monthsW = [\<lparr>month_date = newDate 2023 0 1, month_year = 2023, month_month = 0,
               month_bbox = \<lparr>bbox_x = Num 10, bbox_y = Num 20, bbox_width = Num 50,
                            bbox_height = Num 70\<rparr>\<rparr>]"

definition cfgJuly2023 :: config where
  "cfgJuly2023 = \<lparr>width = Num 800, height = Num 200,
     fromDate = \<lparr>getFullYear = 2023, getMonth = 6, getDate = 1, getTimeOfDay = 0\<rparr>,
     toDate = \<lparr>getFullYear = 2023, getMonth = 6, getDate = 31, getTimeOfDay = 0\<rparr>,
     direction = ''horizontal'', yearSpacing = Num 30, monthSpacing = Num 0, daySpacing = Num 2,
     align = ''center'', weekDirection = ''horizontal'', granularity = ''month'', breakpoint = 1\<rparr>"

section \<open>What every call with a block does\<close>

text \<open>
  The looping equations are used one step at a time.
\<close>

declare daysFrom.simps [simp del] monthsFrom.simps [simp del] chunkYears.simps [simp del]
  scanMonths.simps [simp del] monthBlocks.simps [simp del]

lemma NaN_absorbs [simp]:
  "x + NaN = NaN" "x - NaN = NaN" "x * NaN = NaN" "x / NaN = NaN"
  "Math_min x NaN = NaN" "Math_max x NaN = NaN"
  by (cases x; simp)+

lemma cellPosition_no_start: "cellPosition cfg cs m ox oy d i None = Inl TypeError"
  by (simp add: cellPosition_def cellPositionHorizontalHorizontal_def
      cellPositionHorizontalVertical_def cellPositionVerticalHorizontal_def
      cellPositionVerticalVertical_def getB_def getD_def Let_def)

lemma blockDays_throws:
  assumes "dateLess (ceilDay (fst blk)) (snd blk)"
  shows "blockDays cfg cs m ox oy i blk = Inl TypeError"
proof -
  have "timeDays (fst blk) (snd blk)
          = ceilDay (fst blk) # daysFrom (nextDay (ceilDay (fst blk))) (snd blk)"
    using assms by (simp add: timeDays_def daysFrom.simps [of "ceilDay (fst blk)"])
  then show ?thesis
    by (simp add: blockDays_def cellPosition_no_start)
qed

lemma monthIndex_firstOfMonth: "monthIndex (firstOfMonth t) = t"
  by (simp add: monthIndex_def firstOfMonth_def)

lemma ceilDay_firstOfMonth: "ceilDay (firstOfMonth t) = firstOfMonth t"
  by (simp add: ceilDay_def firstOfMonth_def)

lemma ceilMonth_firstOfMonth: "ceilMonth (firstOfMonth t) = t"
  by (simp add: ceilMonth_def monthIndex_firstOfMonth) (simp add: firstOfMonth_def)

lemma blockYear_no_month: "blockYear blk [] = Inl (IndexTypeError 0)"
  by (simp add: blockYear_def bboxAt_def)

lemma processBlock_days:
  assumes "dateLess (ceilDay (fst blk)) (snd blk)"
  shows "processBlock cfg cs m ox oy acc i blk = Inl TypeError"
  using assms by (simp add: processBlock_def blockDays_throws)

lemma processBlock_no_days:
  assumes "fst blk = firstOfMonth t" "\<not> dateLess (ceilDay (fst blk)) (snd blk)"
  shows "processBlock cfg cs m ox oy acc i blk = Inl (IndexTypeError 0)"
proof -
  have months: "timeMonths (fst blk) (snd blk) = []"
    using assms
    by (simp add: timeMonths_def ceilMonth_firstOfMonth ceilDay_firstOfMonth
        monthsFrom.simps [of t])
  have "timeDays (fst blk) (snd blk) = []"
    using assms(2) by (simp add: timeDays_def daysFrom.simps [of "ceilDay (fst blk)"])
  then have "(blockDays cfg cs m ox oy i blk :: error + 'a dayCell list) = Inr []"
    by (simp add: blockDays_def)
  then show ?thesis
    by (simp add: processBlock_def Let_def blockMonths_def months blockYear_no_month)
qed

lemma processBlock_throws:
  assumes "fst blk = firstOfMonth t"
  shows "processBlock cfg cs m ox oy acc i blk
           = Inl (if dateLess (ceilDay (fst blk)) (snd blk) then TypeError else IndexTypeError 0)"
  using assms by (simp add: processBlock_days processBlock_no_days)

lemma addDays_zero: "addDays d 0 = d"
  by (simp add: addDays_def)

lemma newDate_first: "newDate y m 1 = firstOfMonth (12 * (if 0 \<le> y \<and> y \<le> 99 then 1900 + y else y) + m)"
  by (simp add: newDate_def addDays_zero)

lemma chunkYears_step:
  assumes "yearRange \<noteq> []" "0 < bp"
  shows "chunkYears bp yearRange =
    bindE (chunkYears bp (drop (nat bp) yearRange)) (\<lambda>rest.
      Inr ((newDate (hd (take (nat bp) yearRange)) 0 1,
            newDate (last (take (nat bp) yearRange) + 1) 0 1) # rest))"
  by (subst chunkYears.simps) (use assms in \<open>simp add: Let_def\<close>)

lemma chunkYears_stop:
  "chunkYears bp [] = Inr []" "bp \<le> 0 \<Longrightarrow> yearRange \<noteq> [] \<Longrightarrow> chunkYears bp yearRange = Inl Diverges"
  by (subst chunkYears.simps, simp)+

lemma chunkYears_first:
  "chunkYears bp ys = Inr dates \<Longrightarrow> blk \<in> set dates \<Longrightarrow> \<exists>t. fst blk = firstOfMonth t"
proof (induction bp ys arbitrary: dates rule: chunkYears.induct)
  case (1 bp yearRange)
  show ?case
  proof (cases "yearRange = []")
    case True
    then have "chunkYears bp yearRange = Inr []"
      by (simp add: chunkYears_stop(1))
    then show ?thesis
      using "1.prems" by simp
  next
    case ne: False
    show ?thesis
    proof (cases "bp \<le> 0")
      case True
      then have "chunkYears bp yearRange = Inl Diverges"
        using ne by (simp add: chunkYears_stop(2))
      then show ?thesis
        using "1.prems" by simp
    next
      case False
      have step: "chunkYears bp yearRange =
        bindE (chunkYears bp (drop (nat bp) yearRange)) (\<lambda>rest.
          Inr ((newDate (hd (take (nat bp) yearRange)) 0 1,
                newDate (last (take (nat bp) yearRange) + 1) 0 1) # rest))"
        using ne False by (intro chunkYears_step) simp_all
      obtain rest where rest: "chunkYears bp (drop (nat bp) yearRange) = Inr rest"
        and dates: "dates = (newDate (hd (take (nat bp) yearRange)) 0 1,
                             newDate (last (take (nat bp) yearRange) + 1) 0 1) # rest"
        using "1.prems"(1) unfolding step
        by (cases "chunkYears bp (drop (nat bp) yearRange)") auto
      show ?thesis
      proof (cases "blk \<in> set rest")
        case True
        from "1.IH" [OF ne False refl rest True] show ?thesis .
      next
        case nin: False
        then have "fst blk = newDate (hd (take (nat bp) yearRange)) 0 1"
          using dates "1.prems"(2) by simp
        then show ?thesis
          unfolding newDate_first by (rule exI)
      qed
    qed
  qed
qed

lemma monthBlocks_stop:
  assumes "\<not> (validDate (firstOfMonth t) \<and> dateLess (firstOfMonth t) toD)"
  shows "monthBlocks wd t toD bp m = Inr ([], m)"
  by (subst monthBlocks.simps) (simp only: assms if_False)

lemma monthBlocks_diverges:
  "validDate (firstOfMonth t) \<and> dateLess (firstOfMonth t) toD
     \<Longrightarrow> monthBlocks wd t toD 0 m = Inl Diverges"
  by (subst monthBlocks.simps) simp

lemma monthBlocks_step:
  assumes "validDate (firstOfMonth t) \<and> dateLess (firstOfMonth t) toD" "bp \<noteq> 0"
  shows "monthBlocks wd t toD bp m =
    bindE (monthBlocks wd (t + bp) toD bp
             (if wd = ''horizontal'' \<and> m \<noteq> Num 6 then scanMonths t bp 0 m else m))
      (\<lambda>rest. Inr ((firstOfMonth t, blockEnd t bp) # fst rest, snd rest))"
  by (subst monthBlocks.simps) (use assms in simp)

lemma monthBlocks_first:
  "monthBlocks wd t toD bp m = Inr (dates, m') \<Longrightarrow> blk \<in> set dates
     \<Longrightarrow> \<exists>k. blk = (firstOfMonth k, blockEnd k bp)"
proof (induction wd t toD bp m arbitrary: dates m' rule: monthBlocks.induct)
  case (1 wd t toD bp m)
  show ?case
  proof (cases "validDate (firstOfMonth t) \<and> dateLess (firstOfMonth t) toD")
    case False
    then have "monthBlocks wd t toD bp m = Inr ([], m)"
      by (rule monthBlocks_stop)
    then show ?thesis
      using "1.prems" by simp
  next
    case test: True
    show ?thesis
    proof (cases "bp = 0")
      case True
      with test have "monthBlocks wd t toD bp m = Inl Diverges"
        by (simp add: monthBlocks_diverges)
      then show ?thesis
        using "1.prems" by simp
    next
      case False
      define m1 where "m1 = (if wd = ''horizontal'' \<and> m \<noteq> Num 6 then scanMonths t bp 0 m else m)"
      have step: "monthBlocks wd t toD bp m =
          bindE (monthBlocks wd (t + bp) toD bp m1)
            (\<lambda>rest. Inr ((firstOfMonth t, blockEnd t bp) # fst rest, snd rest))"
        unfolding m1_def using test False by (intro monthBlocks_step) simp_all
      obtain rest where rest: "monthBlocks wd (t + bp) toD bp m1 = Inr rest"
        and dates: "dates = (firstOfMonth t, blockEnd t bp) # fst rest"
        using "1.prems"(1) unfolding step
        by (cases "monthBlocks wd (t + bp) toD bp m1") auto
      show ?thesis
      proof (cases "blk \<in> set (fst rest)")
        case True
        have "monthBlocks wd (t + bp) toD bp m1 = Inr (fst rest, snd rest)"
          using rest by simp
        from "1.IH" [OF test False this [unfolded m1_def] True] show ?thesis .
      next
        case nin: False
        then have "blk = (firstOfMonth t, blockEnd t bp)"
          using dates "1.prems"(2) by simp
        then show ?thesis
          by (rule exI)
      qed
    qed
  qed
qed

lemma partition_first:
  assumes "partitionDates cfg = Inr (dates, m)" "blk \<in> set dates"
  shows "\<exists>t. fst blk = firstOfMonth t"
proof (cases "granularity cfg = ''year''")
  case True
  then obtain ds where "chunkYears (breakpoint cfg)
      (lodash_range (getUTCFullYear (fromDate cfg)) (getUTCFullYear (toDate cfg) + 1)) = Inr ds"
    and "dates = ds"
    using assms(1)
    by (cases "chunkYears (breakpoint cfg)
      (lodash_range (getUTCFullYear (fromDate cfg)) (getUTCFullYear (toDate cfg) + 1))")
       (auto simp: partitionDates_def)
  then show ?thesis
    using chunkYears_first assms(2) by blast
next
  case False
  then have "monthBlocks (weekDirection cfg)
      (monthIndex (newDate (getUTCFullYear (fromDate cfg)) (int (getUTCMonth (fromDate cfg))) 1))
      (toDate cfg) (breakpoint cfg) NaN = Inr (dates, m)"
    using assms(1) by (simp add: partitionDates_def)
  from monthBlocks_first [OF this assms(2)] show ?thesis
    by auto
qed

lemma month_index_less:
  "(a::int) < b \<longleftrightarrow> a div 12 < b div 12 \<or> (a div 12 = b div 12 \<and> a mod 12 < b mod 12)"
proof -
  have "a = 12 * (a div 12) + a mod 12" "b = 12 * (b div 12) + b mod 12"
    "0 \<le> a mod 12" "a mod 12 < 12" "0 \<le> b mod 12" "b mod 12 < 12"
    by simp_all
  then show ?thesis
    by linarith
qed

lemma dateLess_firstOfMonth: "dateLess (firstOfMonth a) (firstOfMonth b) \<longleftrightarrow> a < b"
proof -
  have "0 \<le> a mod 12" "0 \<le> b mod 12"
    by simp_all
  then have "nat (a mod 12) < nat (b mod 12) \<longleftrightarrow> a mod 12 < b mod 12"
    "nat (a mod 12) = nat (b mod 12) \<longleftrightarrow> a mod 12 = b mod 12"
    by linarith+
  then show ?thesis
    unfolding month_index_less [of a b] by (auto simp: dateLess_def firstOfMonth_def)
qed

lemma monthsFrom_stop: "\<not> dateLess (firstOfMonth t) b \<Longrightarrow> monthsFrom t b = []"
  by (subst monthsFrom.simps) simp

lemma monthsFrom_step:
  "dateLess (firstOfMonth t) b \<Longrightarrow> monthsFrom t b = firstOfMonth t # monthsFrom (t + 1) b"
  by (subst monthsFrom.simps) simp

lemma length_monthsFrom: "length (monthsFrom k (firstOfMonth e)) = nat (e - k)"
proof (induction k "firstOfMonth e" rule: monthsFrom.induct)
  case (1 t)
  show ?case
  proof (cases "t < e")
    case True
    then have less: "dateLess (firstOfMonth t) (firstOfMonth e)"
      by (simp add: dateLess_firstOfMonth)
    from "1.hyps" [OF less] True show ?thesis
      by (simp add: monthsFrom_step [OF less])
  next
    case False
    then have "\<not> dateLess (firstOfMonth t) (firstOfMonth e)"
      by (simp add: dateLess_firstOfMonth)
    then show ?thesis
      using False by (simp add: monthsFrom_stop)
  qed
qed

lemma length_timeMonths_block:
  "length (timeMonths (firstOfMonth k) (firstOfMonth (k + bp))) = nat bp"
  by (simp add: timeMonths_def ceilMonth_firstOfMonth length_monthsFrom)


lemma blockEnd_backwards: "bp < 0 \<Longrightarrow> \<not> dateLess (firstOfMonth k) (blockEnd k bp)"
  by (simp add: blockEnd_def dateLess_firstOfMonth)


lemma monthBlocks_total: "bp \<noteq> 0 \<Longrightarrow> \<exists>r. monthBlocks wd t toD bp m = Inr r"
proof (induction wd t toD bp m rule: monthBlocks.induct)
  case (1 wd t toD bp m)
  show ?case
  proof (cases "validDate (firstOfMonth t) \<and> dateLess (firstOfMonth t) toD")
    case False
    then show ?thesis
      by (simp add: monthBlocks_stop)
  next
    case True
    from "1.IH" [OF True] "1.prems" obtain r where
      "monthBlocks wd (t + bp) toD bp
         (if wd = ''horizontal'' \<and> m \<noteq> Num 6 then scanMonths t bp 0 m else m) = Inr r"
      by auto
    then show ?thesis
      by (simp add: monthBlocks_step [OF True "1.prems"])
  qed
qed

lemma chunkYears_total: "0 < bp \<Longrightarrow> \<exists>r. chunkYears bp ys = Inr r"
proof (induction bp ys rule: chunkYears.induct)
  case (1 bp yearRange)
  show ?case
  proof (cases "yearRange = []")
    case True
    then show ?thesis
      by (simp add: chunkYears_stop(1))
  next
    case False
    from "1.IH" [OF False _ refl] "1.prems" obtain r where
      "chunkYears bp (drop (nat bp) yearRange) = Inr r"
      by auto
    then show ?thesis
      by (simp add: chunkYears_step [OF False "1.prems"])
  qed
qed

lemma scanMonths_stop: "\<not> i < bp \<Longrightarrow> scanMonths t bp i m = m"
  by (subst scanMonths.simps) simp

lemma scanMonths_six: "i < bp \<Longrightarrow> 37 \<le> scanSum t i \<Longrightarrow> scanMonths t bp i m = Num 6"
  by (subst scanMonths.simps) simp

lemma scanMonths_four:
  "i < bp \<Longrightarrow> scanSum t i = 28
     \<Longrightarrow> scanMonths t bp i m = scanMonths t bp (i + 1) (Math_max m (Num 4))"
  by (subst scanMonths.simps) simp

lemma scanMonths_five:
  "i < bp \<Longrightarrow> scanSum t i < 37 \<Longrightarrow> scanSum t i \<noteq> 28
     \<Longrightarrow> scanMonths t bp i m = scanMonths t bp (i + 1) (Num 5)"
  by (subst scanMonths.simps) simp

lemmas calendar_defs = getUTCFullYear_def getUTCMonth_def getUTCDay_def getDay_def dayNumber_def
  leapsBefore_def newDate_def addDays_def firstOfMonth_def monthIndex_def nextDay_def prevDay_def
  daysInMonth_def leapYear_def upt_rec

text \<open>
  A block starts at the first of a month. If it holds a day, the first day cell already
  throws: the positioning closure reads the months elapsed since a start date that the call
  does not pass. If it holds no day, it holds no month, and the year's box reads
  \<^verbatim>\<open>yearMonths[0].bbox\<close>. So \<^verbatim>\<open>computeLayout\<close> throws as soon as there is a block.
\<close>

lemma computeLayout_throws:
  assumes "partitionDates cfg = Inr (blk # rest, m)"
  shows "(computeLayout alignBox cfg :: error + 'v layout)
           = Inl (if dateLess (ceilDay (fst blk)) (snd blk) then TypeError else IndexTypeError 0)"
proof -
  obtain t where "fst blk = firstOfMonth t"
    using partition_first [OF assms, of blk] by auto
  then show ?thesis
    by (simp add: computeLayout_def assms Let_def processBlock_throws)
qed

lemma computeLayout_throws_at_day:
  assumes "partitionDates cfg = Inr (blk # rest, m)" "dateLess (ceilDay (fst blk)) (snd blk)"
  shows "(computeLayout alignBox cfg :: error + 'v layout) = Inl TypeError"
  using computeLayout_throws [OF assms(1), of alignBox, where ?'v = 'v] assms(2) by simp

lemma computeLayout_returns:
  assumes "(computeLayout alignBox cfg :: error + 'v layout) = Inr r"
  shows "\<exists>m. partitionDates cfg = Inr ([], m)" and "years r = []" and "months r = []" and "days r = []"
proof -
  obtain dates m where p: "partitionDates cfg = Inr (dates, m)"
    using assms by (cases "partitionDates cfg") (auto simp: computeLayout_def)
  have "dates = []"
  proof (cases dates)
    case (Cons blk rest)
    then have "partitionDates cfg = Inr (blk # rest, m)"
      using p by simp
    from computeLayout_throws [OF this, of alignBox, where ?'v = 'v] show ?thesis
      using assms by simp
  qed simp
  then show "\<exists>m. partitionDates cfg = Inr ([], m)"
    using p by simp
  show "years r = []" and "months r = []" and "days r = []"
    using assms p \<open>dates = []\<close> by (auto simp: computeLayout_def Let_def)
qed

text \<open>
  With a breakpoint below 0 the blocks run backwards: none holds a day or a month, and the
  call ends at \<^verbatim>\<open>yearMonths[0].bbox\<close> of the first one.
\<close>

lemma computeLayout_negative_breakpoint:
  assumes "granularity cfg \<noteq> ''year''" "breakpoint cfg < 0"
    and "partitionDates cfg = Inr (blk # rest, m)"
  shows "(computeLayout alignBox cfg :: error + 'v layout) = Inl (IndexTypeError 0)"
proof -
  have "monthBlocks (weekDirection cfg)
      (monthIndex (newDate (getUTCFullYear (fromDate cfg)) (int (getUTCMonth (fromDate cfg))) 1))
      (toDate cfg) (breakpoint cfg) NaN = Inr (blk # rest, m)"
    using assms(1,3) by (simp add: partitionDates_def)
  from monthBlocks_first [OF this, of blk] obtain k where
    "blk = (firstOfMonth k, blockEnd k (breakpoint cfg))"
    by auto
  then have "\<not> dateLess (ceilDay (fst blk)) (snd blk)"
    using assms(2) by (simp add: ceilDay_firstOfMonth blockEnd_backwards)
  then show ?thesis
    using computeLayout_throws [OF assms(3), of alignBox, where ?'v = 'v] by simp
qed

text \<open>Dates of the years 0 to 9999 lie in the range of \<^verbatim>\<open>Date\<close>.\<close>

lemma validDate_firstOfMonth:
  assumes "0 \<le> t" "t < 120000"
  shows "validDate (firstOfMonth t)"
proof -
  have split: "t = 12 * (t div 12) + t mod 12" and mod: "0 \<le> t mod 12" "t mod 12 < 12"
    by simp_all
  define y where "y = t div 12"
  define s where "s = int (sum_list (map (daysInMonth y) [0 ..< nat (t mod 12)]))"
  define leaps where "leaps = leapsBefore y"
  have y: "0 \<le> y" "y < 10000"
    unfolding y_def using assms split mod by linarith+
  have dim: "daysInMonth y k \<le> 31" for k
    by (simp add: daysInMonth_def)
  have month_days: "sum_list (map (daysInMonth y) ms) \<le> 31 * length ms" for ms
  proof (induction ms)
    case (Cons k ms)
    then show ?case
      using dim [of k] by simp
  qed simp
  have s: "0 \<le> s" "s \<le> 341"
    unfolding s_def using month_days [of "[0 ..< nat (t mod 12)]"] mod by simp_all
  have "4 * ((y - 1) div 4) \<le> y - 1" "y - 100 \<le> 100 * ((y - 1) div 100)"
    "400 * ((y - 1) div 400) \<le> y - 1" "y - 4 \<le> 4 * ((y - 1) div 4)"
    "100 * ((y - 1) div 100) \<le> y - 1" "y - 400 \<le> 400 * ((y - 1) div 400)"
    by linarith+
  then have "400 * ((y - 1) div 4) \<le> 100 * (y - 1)"
    "4 * (y - 100) \<le> 400 * ((y - 1) div 100)" "400 * ((y - 1) div 400) \<le> y - 1"
    "100 * (y - 4) \<le> 400 * ((y - 1) div 4)"
    "400 * ((y - 1) div 100) \<le> 4 * (y - 1)" "y - 400 \<le> 400 * ((y - 1) div 400)"
    by simp_all
  then have leaps: "400 * leaps \<le> 97 * y + 299" "97 * y - 796 \<le> 400 * leaps"
    by (simp_all add: leaps_def leapsBefore_def algebra_simps)
  have "leapsBefore 1970 = 477"
    by (simp add: leapsBefore_def)
  then have day: "dayNumber (firstOfMonth t) = 365 * y + leaps + s - 719527"
    by (simp add: dayNumber_def firstOfMonth_def y_def s_def leaps_def)
  have "- 100000000 \<le> dayNumber (firstOfMonth t)" "dayNumber (firstOfMonth t) < 100000000"
    unfolding day using s leaps y by linarith+
  then show ?thesis
    by (simp add: validDate_def)
qed

lemma blockEnd_valid: "0 \<le> t + bp \<Longrightarrow> t + bp < 120000 \<Longrightarrow> blockEnd t bp = firstOfMonth (t + bp)"
  by (simp add: blockEnd_def validDate_firstOfMonth)

text \<open>The partitions of the inputs.\<close>

lemma partition_cfg2023:
  "partitionDates (cfg2023 dir wd) =
     Inr ([(firstOfMonth 24276, firstOfMonth 24288)], if wd = ''horizontal'' then Num 6 else NaN)"
proof -
  have "chunkYears 1 [2023] = Inr [(newDate 2023 0 1, newDate 2024 0 1)]"
    by (simp add: chunkYears_step chunkYears_stop)
  then show ?thesis
    by (simp add: partitionDates_def cfg2023_def lodash_range_def getUTCFullYear_def newDate_first)
qed

lemma computeLayout_cfg2023:
  "(computeLayout alignBox (cfg2023 dir wd) :: error + 'v layout) = Inl TypeError"
proof -
  have "dateLess (ceilDay (fst (firstOfMonth 24276, firstOfMonth 24288)))
          (snd (firstOfMonth 24276, firstOfMonth 24288))"
    by (simp add: ceilDay_firstOfMonth dateLess_firstOfMonth)
  with partition_cfg2023 [of dir wd] show ?thesis
    by (rule computeLayout_throws_at_day)
qed


lemma partition_cfgBackward:
  "\<exists>rest m. partitionDates cfgBackward = Inr ((firstOfMonth 24276, firstOfMonth 24275) # rest, m)"
proof -
  let ?to = "\<lparr>getFullYear = 2023, getMonth = 2, getDate = 10, getTimeOfDay = 0\<rparr>"
  have test: "validDate (firstOfMonth 24276) \<and> dateLess (firstOfMonth 24276) ?to"
    by (simp add: validDate_firstOfMonth) (simp add: dateLess_def firstOfMonth_def)
  have "blockEnd 24276 (- 1) = firstOfMonth 24275"
    using blockEnd_valid [of 24276 "- 1"] by simp
  moreover obtain r where "monthBlocks ''horizontal'' (24276 + - 1) ?to (- 1)
      (if ''horizontal'' = ''horizontal'' \<and> NaN \<noteq> Num 6
       then scanMonths 24276 (- 1) 0 NaN else NaN) = Inr r"
    using monthBlocks_total [of "- 1"] by fastforce
  ultimately have "monthBlocks ''horizontal'' 24276 ?to (- 1) NaN
      = Inr ((firstOfMonth 24276, firstOfMonth 24275) # fst r, snd r)"
    using monthBlocks_step [OF test, of "- 1" "''horizontal''" NaN] by simp
  then have "partitionDates cfgBackward
      = Inr ((firstOfMonth 24276, firstOfMonth 24275) # fst r, snd r)"
    by (simp add: partitionDates_def cfgBackward_def calendar_defs)
  then show ?thesis
    by blast
qed

lemma computeLayout_cfgBackward:
  "(computeLayout alignBox cfgBackward :: error + 'v layout) = Inl (IndexTypeError 0)"
proof -
  obtain rest m where
    "partitionDates cfgBackward = Inr ((firstOfMonth 24276, firstOfMonth 24275) # rest, m)"
    using partition_cfgBackward by blast
  then show ?thesis
    by (intro computeLayout_negative_breakpoint) (simp_all add: cfgBackward_def)
qed



lemma partition_cfgJulAug2020:
  "partitionDates cfgJulAug2020 =
     Inr ([(firstOfMonth 24246, firstOfMonth 24247), (firstOfMonth 24247, firstOfMonth 24248)],
          Num 6)"
proof -
  let ?to = "\<lparr>getFullYear = 2020, getMonth = 7, getDate = 15, getTimeOfDay = 0\<rparr>"
  have less: "dateLess (firstOfMonth 24246) ?to" "dateLess (firstOfMonth 24247) ?to"
    "\<not> dateLess (firstOfMonth 24248) ?to"
    by (simp_all add: dateLess_def firstOfMonth_def)
  have ends: "blockEnd 24246 1 = firstOfMonth 24247" "blockEnd 24247 1 = firstOfMonth 24248"
    by (simp_all add: blockEnd_valid)
  have sums: "scanSum 24246 0 = 33" "scanSum 24247 0 = 37"
    by (simp_all add: scanSum_def calendar_defs)
  have scans: "scanMonths 24246 1 0 NaN = Num 5" "scanMonths 24247 1 0 (Num 5) = Num 6"
    by (simp_all add: scanMonths_five scanMonths_six sums scanMonths_stop)
  have "monthBlocks ''horizontal'' 24246 ?to 1 NaN =
     Inr ([(firstOfMonth 24246, firstOfMonth 24247), (firstOfMonth 24247, firstOfMonth 24248)],
          Num 6)"
    by (simp add: monthBlocks_step less monthBlocks_stop scans validDate_firstOfMonth ends)
  then show ?thesis
    by (simp add: partitionDates_def cfgJulAug2020_def calendar_defs)
qed

lemma partition_cfgUnknown: "partitionDates cfgUnknown = Inr ([], NaN)"
proof -
  have "\<not> dateLess (firstOfMonth 24276)
          \<lparr>getFullYear = 2023, getMonth = 0, getDate = 1, getTimeOfDay = 0\<rparr>"
    by (simp add: dateLess_def firstOfMonth_def)
  then show ?thesis
    by (simp add: partitionDates_def cfgUnknown_def monthBlocks_stop calendar_defs)
qed

text \<open>
  A range of years that is empty (\<open>from\<close> in the year after \<open>to\<close>) has no block:
  the candidate of the axis of the blocks is a division by zero, an infinity, and the cell
  size is the other candidate.
\<close>

lemma empty_year_range_returns:
  "(computeLayout (\<lambda>inner outer al. (Num 0, Num 0)) (cfgEmptyYears ''horizontal'')
      :: error + unit layout)
     = Inr \<lparr>years = [], months = [], days = [], cellSize = Num (158 / 21),
            calendarWidth = Num 800, calendarHeight = Num (- 30),
            originX = Num 0, originY = Num 0\<rparr>"
  "(computeLayout (\<lambda>inner outer al. (Num 0, Num 0)) (cfgEmptyYears ''vertical'')
      :: error + unit layout)
     = Inr \<lparr>years = [], months = [], days = [], cellSize = Num (8 / 21),
            calendarWidth = Num (- 30), calendarHeight = Num 200,
            originX = Num 0, originY = Num 0\<rparr>"
proof -
  have part: "partitionDates (cfgEmptyYears dir) = Inr ([], Num 6)" for dir
    by (simp add: partitionDates_def cfgEmptyYears_def lodash_range_def getUTCFullYear_def
        chunkYears_stop)
  have "cellSizeOf (cfgEmptyYears ''horizontal'') [] (Num 6) = Num (158 / 21)"
    "cellSizeOf (cfgEmptyYears ''vertical'') [] (Num 6) = Num (8 / 21)"
    by (simp_all add: cellSizeOf_def cfgEmptyYears_def computeCellSize_def rowsMonth_def
        maxColumnsGroup_def monthsPerGroup_def ofInt_def signedInfinity_def)
  then have "calendarWidthOf (cfgEmptyYears ''horizontal'') [] (Num 6) = Num 800"
    "calendarHeightOf (cfgEmptyYears ''horizontal'') [] (Num 6) = Num (- 30)"
    "calendarWidthOf (cfgEmptyYears ''vertical'') [] (Num 6) = Num (- 30)"
    "calendarHeightOf (cfgEmptyYears ''vertical'') [] (Num 6) = Num 200"
    "cellSizeOf (cfgEmptyYears ''horizontal'') [] (Num 6) = Num (158 / 21)"
    "cellSizeOf (cfgEmptyYears ''vertical'') [] (Num 6) = Num (8 / 21)"
    by (simp_all add: calendarWidthOf_def calendarHeightOf_def monthsSize_def yearsSize_def)
       (simp_all add: cfgEmptyYears_def rowsMonth_def maxColumnsGroup_def monthsPerGroup_def
          ofInt_def)
  then show
    "(computeLayout (\<lambda>inner outer al. (Num 0, Num 0)) (cfgEmptyYears ''horizontal'')
      :: error + unit layout)
     = Inr \<lparr>years = [], months = [], days = [], cellSize = Num (158 / 21),
            calendarWidth = Num 800, calendarHeight = Num (- 30),
            originX = Num 0, originY = Num 0\<rparr>"
    "(computeLayout (\<lambda>inner outer al. (Num 0, Num 0)) (cfgEmptyYears ''vertical'')
      :: error + unit layout)
     = Inr \<lparr>years = [], months = [], days = [], cellSize = Num (8 / 21),
            calendarWidth = Num (- 30), calendarHeight = Num 200,
            originX = Num 0, originY = Num 0\<rparr>"
    by (simp_all add: computeLayout_def part rowsMonth_def)
qed

text \<open>The scan of one block, and the rows after all blocks.\<close>

lemma scanMonths_reaches_six:
  "i \<le> j \<Longrightarrow> j < bp \<Longrightarrow> 37 \<le> scanSum t j \<Longrightarrow> scanMonths t bp i rows = Num 6"
proof (induction t bp i rows rule: scanMonths.induct)
  case (1 t bp i rows)
  have i: "i < bp"
    using "1.prems" by simp
  show ?case
  proof (cases "37 \<le> scanSum t i")
    case True
    with i show ?thesis
      by (rule scanMonths_six)
  next
    case False
    then have "i \<noteq> j"
      using "1.prems"(3) by auto
    then have next_le: "i + 1 \<le> j"
      using "1.prems"(1) by simp
    show ?thesis
    proof (cases "scanSum t i = 28")
      case True
      from "1.IH"(1) [OF i False True next_le "1.prems"(2,3)] show ?thesis
        by (simp add: scanMonths_four [OF i True])
    next
      case other: False
      from "1.IH"(2) [OF i False other next_le "1.prems"(2,3)] show ?thesis
        using False by (simp add: scanMonths_five [OF i _ other])
    qed
  qed
qed

lemma scanMonths_last:
  "i < bp \<Longrightarrow> (\<forall>j. i \<le> j \<and> j < bp \<longrightarrow> scanSum t j < 37)
     \<Longrightarrow> scanMonths t bp i rows =
           (if scanSum t (bp - 1) = 28 then Math_max (scanMonths t (bp - 1) i rows) (Num 4)
            else Num 5)"
proof (induction t bp i rows rule: scanMonths.induct)
  case (1 t bp i rows)
  have small: "scanSum t i < 37" and not_six: "\<not> 37 \<le> scanSum t i"
    using "1.prems" by auto
  show ?case
  proof (cases "i + 1 < bp")
    case last: False
    then have i: "i = bp - 1"
      using "1.prems"(1) by simp
    have stop: "\<And>r. scanMonths t bp (i + 1) r = r" "scanMonths t (bp - 1) i rows = rows"
      using last i by (simp_all add: scanMonths_stop)
    show ?thesis
    proof (cases "scanSum t i = 28")
      case True
      have "scanMonths t bp i rows = Math_max rows (Num 4)"
        by (simp add: scanMonths_four [OF "1.prems"(1) True] stop(1))
      moreover have "scanSum t (bp - 1) = 28"
        using True i by simp
      ultimately show ?thesis
        by (simp add: stop(2))
    next
      case False
      have "scanMonths t bp i rows = Num 5"
        by (simp add: scanMonths_five [OF "1.prems"(1) small False] stop(1))
      moreover have "scanSum t (bp - 1) \<noteq> 28"
        using False i by simp
      ultimately show ?thesis
        by simp
    qed
  next
    case more: True
    then have i': "i < bp - 1"
      by simp
    have rest: "\<forall>j. i + 1 \<le> j \<and> j < bp \<longrightarrow> scanSum t j < 37"
      using "1.prems"(2) by auto
    show ?thesis
    proof (cases "scanSum t i = 28")
      case True
      from "1.IH"(1) [OF "1.prems"(1) not_six True more rest] show ?thesis
        by (simp add: scanMonths_four [OF "1.prems"(1) True] scanMonths_four [OF i' True])
    next
      case False
      from "1.IH"(2) [OF "1.prems"(1) not_six False more rest] show ?thesis
        by (simp add: scanMonths_five [OF "1.prems"(1) small False]
            scanMonths_five [OF i' small False])
    qed
  qed
qed

lemma monthBlocks_rows:
  "monthBlocks ''horizontal'' t toD bp rows = Inr (dates, m)
     \<Longrightarrow> m = foldl (\<lambda>rows blk. if rows = Num 6 then rows
                               else scanMonths (monthIndex (fst blk)) bp 0 rows) rows dates"
proof (induction "''horizontal''" t toD bp rows arbitrary: dates m rule: monthBlocks.induct)
  case (1 t toD bp rows)
  show ?case
  proof (cases "validDate (firstOfMonth t) \<and> dateLess (firstOfMonth t) toD")
    case False
    then show ?thesis
      using "1.prems" by (simp add: monthBlocks_stop)
  next
    case test: True
    show ?thesis
    proof (cases "bp = 0")
      case True
      then show ?thesis
        using "1.prems" test by (simp add: monthBlocks_diverges)
    next
      case False
      define rows1 where "rows1 = (if rows = Num 6 then rows else scanMonths t bp 0 rows)"
      have step: "monthBlocks ''horizontal'' t toD bp rows =
          bindE (monthBlocks ''horizontal'' (t + bp) toD bp rows1)
            (\<lambda>rest. Inr ((firstOfMonth t, blockEnd t bp) # fst rest, snd rest))"
        using test False by (simp add: monthBlocks_step rows1_def)
      obtain rest where rest: "monthBlocks ''horizontal'' (t + bp) toD bp rows1 = Inr rest"
        and dates: "dates = (firstOfMonth t, blockEnd t bp) # fst rest" and m: "m = snd rest"
        using "1.prems" unfolding step
        by (cases "monthBlocks ''horizontal'' (t + bp) toD bp rows1") auto
      have eq: "(if ''horizontal'' = ''horizontal'' \<and> rows \<noteq> Num 6 then scanMonths t bp 0 rows
                else rows) = rows1"
        by (simp add: rows1_def)
      have "monthBlocks ''horizontal'' (t + bp) toD bp rows1 = Inr (fst rest, m)"
        using rest m by simp
      from "1.hyps" [OF test False this [folded eq]] show ?thesis
        by (simp add: dates eq monthIndex_firstOfMonth rows1_def)
    qed
  qed
qed

text \<open>What a value other than the expected ones does.\<close>

lemma monthBlocks_other_weekDirection:
  "wd \<noteq> ''horizontal'' \<Longrightarrow> monthBlocks wd t toD bp m = monthBlocks ''vertical'' t toD bp m"
proof (induction wd t toD bp m rule: monthBlocks.induct)
  case (1 wd t toD bp m)
  show ?case
  proof (cases "validDate (firstOfMonth t) \<and> dateLess (firstOfMonth t) toD")
    case False
    then show ?thesis
      by (simp add: monthBlocks_stop)
  next
    case test: True
    show ?thesis
    proof (cases "bp = 0")
      case True
      then show ?thesis
        using test by (simp add: monthBlocks_diverges)
    next
      case False
      have "monthBlocks wd (t + bp) toD bp m = monthBlocks ''vertical'' (t + bp) toD bp m"
        using "1.IH" [OF test False] "1.prems" by simp
      then show ?thesis
        using test False "1.prems" by (simp add: monthBlocks_step)
    qed
  qed
qed

lemma partitionDates_direction: "partitionDates (cfg\<lparr>direction := d\<rparr>) = partitionDates cfg"
  by (simp add: partitionDates_def)

lemma direction_parts:
  assumes "direction cfg \<noteq> ''horizontal''"
  shows "cellSizeOf (cfg\<lparr>direction := ''vertical''\<rparr>) dates m = cellSizeOf cfg dates m"
    and "rowsMonth (cfg\<lparr>direction := ''vertical''\<rparr>) m = rowsMonth cfg m"
    and "cellPosition (cfg\<lparr>direction := ''vertical''\<rparr>) = cellPosition cfg"
    and "blockMonths (cfg\<lparr>direction := ''vertical''\<rparr>) = blockMonths cfg"
  using assms
  by (simp_all add: cellSizeOf_def rowsMonth_def maxColumnsGroup_def monthsPerGroup_def
      computeCellSize_def cellPosition_def blockMonths_def memoMonthPathAndBBox_def
      monthPathAndBBox_def fun_eq_iff)

lemma direction_sizes:
  assumes "direction cfg \<noteq> ''horizontal''"
  shows "calendarWidthOf (cfg\<lparr>direction := ''vertical''\<rparr>) dates m = calendarWidthOf cfg dates m"
    and "calendarHeightOf (cfg\<lparr>direction := ''vertical''\<rparr>) dates m = calendarHeightOf cfg dates m"
  using assms
  by (simp_all add: calendarWidthOf_def calendarHeightOf_def monthsSize_def yearsSize_def
      direction_parts rowsMonth_def maxColumnsGroup_def monthsPerGroup_def)

lemma direction_processBlock:
  assumes "direction cfg \<noteq> ''horizontal''"
  shows "(processBlock (cfg\<lparr>direction := ''vertical''\<rparr>) cs m ox oy
            :: _ \<Rightarrow> _ \<Rightarrow> _ \<Rightarrow> error + yearDescriptor list \<times> monthDescriptor list \<times> 'v dayCell list)
           = processBlock cfg cs m ox oy"
  by (simp add: processBlock_def blockDays_def direction_parts [OF assms] fun_eq_iff)

lemma computeLayout_other_direction:
  assumes "direction cfg \<noteq> ''horizontal''"
  shows "(computeLayout alignBox cfg :: error + 'v layout)
           = computeLayout alignBox (cfg\<lparr>direction := ''vertical''\<rparr>)"
  by (simp add: computeLayout_def partitionDates_direction direction_parts [OF assms]
      direction_sizes [OF assms] direction_processBlock [OF assms])

lemma granularity_parts:
  assumes "granularity cfg \<noteq> ''year''"
  shows "partitionDates (cfg\<lparr>granularity := ''month''\<rparr>) = partitionDates cfg"
    and "monthsPerGroup (cfg\<lparr>granularity := ''month''\<rparr>) = monthsPerGroup cfg"
    and "rowsMonth (cfg\<lparr>granularity := ''month''\<rparr>) m = rowsMonth cfg m"
    and "cellPosition (cfg\<lparr>granularity := ''month''\<rparr>) = cellPosition cfg"
    and "blockMonths (cfg\<lparr>granularity := ''month''\<rparr>) = blockMonths cfg"
  using assms
  by (simp_all add: partitionDates_def monthsPerGroup_def rowsMonth_def cellPosition_def
      blockMonths_def fun_eq_iff)

lemma granularity_sizes:
  assumes "granularity cfg \<noteq> ''year''"
  shows "cellSizeOf (cfg\<lparr>granularity := ''month''\<rparr>) dates m = cellSizeOf cfg dates m"
    and "calendarWidthOf (cfg\<lparr>granularity := ''month''\<rparr>) dates m = calendarWidthOf cfg dates m"
    and "calendarHeightOf (cfg\<lparr>granularity := ''month''\<rparr>) dates m = calendarHeightOf cfg dates m"
  by (simp_all add: cellSizeOf_def calendarWidthOf_def calendarHeightOf_def monthsSize_def
      yearsSize_def maxColumnsGroup_def granularity_parts [OF assms])

lemma granularity_processBlock:
  assumes "granularity cfg \<noteq> ''year''"
  shows "(processBlock (cfg\<lparr>granularity := ''month''\<rparr>) cs m ox oy
            :: _ \<Rightarrow> _ \<Rightarrow> _ \<Rightarrow> error + yearDescriptor list \<times> monthDescriptor list \<times> 'v dayCell list)
           = processBlock cfg cs m ox oy"
  by (simp add: processBlock_def blockDays_def granularity_parts [OF assms] fun_eq_iff)

lemma computeLayout_other_granularity:
  assumes "granularity cfg \<noteq> ''year''"
  shows "(computeLayout alignBox cfg :: error + 'v layout)
           = computeLayout alignBox (cfg\<lparr>granularity := ''month''\<rparr>)"
  by (simp add: computeLayout_def granularity_parts [OF assms]
      granularity_sizes [OF assms] granularity_processBlock [OF assms])

lemma other_weekDirection:
  assumes "weekDirection cfg \<noteq> ''horizontal''" "weekDirection cfg \<noteq> ''vertical''"
  shows "partitionDates cfg = partitionDates (cfg\<lparr>weekDirection := ''vertical''\<rparr>)"
    and "maxColumnsGroup cfg dates = maxColumnsGroup (cfg\<lparr>weekDirection := ''horizontal''\<rparr>) dates"
    and "rowsMonth cfg m = m"
    and "cellPosition cfg = cellPosition (cfg\<lparr>weekDirection := ''vertical''\<rparr>)"
proof -
  show "partitionDates cfg = partitionDates (cfg\<lparr>weekDirection := ''vertical''\<rparr>)"
    using assms(1) monthBlocks_other_weekDirection [OF assms(1)]
    by (simp add: partitionDates_def)
  show "maxColumnsGroup cfg dates = maxColumnsGroup (cfg\<lparr>weekDirection := ''horizontal''\<rparr>) dates"
    using assms by (simp add: maxColumnsGroup_def monthsPerGroup_def)
  show "rowsMonth cfg m = m"
    using assms by (simp add: rowsMonth_def)
  show "cellPosition cfg = cellPosition (cfg\<lparr>weekDirection := ''vertical''\<rparr>)"
    using assms by (simp add: cellPosition_def fun_eq_iff)
qed

lemma legends_else_branch:
  assumes "(d \<noteq> ''horizontal'' \<and> d \<noteq> ''vertical'') \<or> (p \<noteq> ''before'' \<and> p \<noteq> ''after'')"
  shows "computeYearLegendPositions ys d p off = computeYearLegendPositions ys ''vertical'' ''after'' off"
    and "computeMonthLegendPositions ms d p off = computeMonthLegendPositions ms ''vertical'' ''after'' off"
  using assms by (auto simp: computeYearLegendPositions_def computeMonthLegendPositions_def)

text \<open>The fold of \<^verbatim>\<open>bindDaysData\<close> over the records.\<close>

lemma bindDay_day: "cell_day (bindDay c d cs) = cell_day c"
  by (simp add: bindDay_def)

lemma bindDay_match:
  "datum_day d = cell_day r \<Longrightarrow> bindDay r d cs = r\<lparr>cell_value := Some (datum_value d),
        cell_color := Some (cs (datum_value d)), cell_data := Some d\<rparr>"
  by (simp add: bindDay_def)

lemma bindDay_other: "datum_day d \<noteq> cell_day r \<Longrightarrow> bindDay r d cs = r"
  by (simp add: bindDay_def)

lemma foldl_bindDay_day:
  "cell_day (foldl (\<lambda>day dayData. bindDay day dayData cs) c data) = cell_day c"
  by (induction data rule: rev_induct) (simp_all add: bindDay_day)

lemma foldl_bindDay:
  "foldl (\<lambda>day dayData. bindDay day dayData cs) c data =
     (if filter (\<lambda>d. datum_day d = cell_day c) data = [] then c
      else c\<lparr>cell_value := Some (datum_value (last (filter (\<lambda>d. datum_day d = cell_day c) data))),
             cell_color := Some (cs (datum_value (last (filter (\<lambda>d. datum_day d = cell_day c) data)))),
             cell_data := Some (last (filter (\<lambda>d. datum_day d = cell_day c) data))\<rparr>)"
proof (induction data rule: rev_induct)
  case Nil
  show ?case by simp
next
  case (snoc d data)
  let ?r = "foldl (\<lambda>day dayData. bindDay day dayData cs) c data"
  have day: "cell_day ?r = cell_day c"
    by (rule foldl_bindDay_day)
  show ?case
  proof (cases "datum_day d = cell_day c")
    case True
    then have "bindDay ?r d cs = ?r\<lparr>cell_value := Some (datum_value d),
        cell_color := Some (cs (datum_value d)), cell_data := Some d\<rparr>"
      by (intro bindDay_match) (simp add: day)
    then show ?thesis
      using True by (simp add: snoc.IH)
  next
    case False
    then have "bindDay ?r d cs = ?r"
      by (intro bindDay_other) (simp add: day)
    then show ?thesis
      using False by (simp add: snoc.IH)
  qed
qed

lemma dayFormat_W:
  "dayFormat (newDate 2023 0 1) = ''2023-01-01''" "dayFormat (newDate 2023 0 2) = ''2023-01-02''"
  by (simp_all add: dayFormat_def newDate_def addDays_def firstOfMonth_def nextDay_def
      daysInMonth_def pad_def jsRemainder_def digit_def)

text \<open>
  The sizes that the call computes before it goes through the blocks do fit the canvas, for
  finite arguments, at least one block, a positive breakpoint and a positive number of rows.
\<close>

lemma Math_max_spread_finite: "xs \<noteq> [] \<Longrightarrow> \<exists>k. 0 \<le> k \<and> Math_max_spread xs = Num k"
proof (induction xs)
  case Nil
  then show ?case by simp
next
  case (Cons v vs)
  show ?case
  proof (cases "vs = []")
    case True
    then show ?thesis
      by (simp add: ofInt_def)
  next
    case False
    with Cons.IH obtain k where "0 \<le> k" "Math_max_spread vs = Num k"
      by auto
    then show ?thesis
      by (simp add: ofInt_def)
  qed
qed

lemma maxColumnsGroup_finite:
  assumes "dates \<noteq> []" "0 < breakpoint cfg"
  shows "\<exists>c. 0 < c \<and> maxColumnsGroup cfg dates = Num c"
proof (cases "weekDirection cfg = ''vertical''")
  case True
  from Math_max_spread_finite [of "map (\<lambda>date. length (timeWeeks (fst date) (snd date))) dates"]
  obtain k where "0 \<le> k"
    "Math_max_spread (map (\<lambda>date. length (timeWeeks (fst date) (snd date))) dates) = Num k"
    using assms(1) by auto
  then show ?thesis
    using True by (simp add: maxColumnsGroup_def)
next
  case False
  then show ?thesis
    using assms(2) by (simp add: maxColumnsGroup_def monthsPerGroup_def ofInt_def)
qed

lemma sizes_fit:
  assumes "width cfg = Num W" "height cfg = Num H" "yearSpacing cfg = Num ys"
    "monthSpacing cfg = Num ms" "daySpacing cfg = Num ds"
    and "dates \<noteq> []" "0 < breakpoint cfg" "rowsMonth cfg m = Num r" "0 < r"
  shows "num_le (calendarWidthOf cfg dates m) (width cfg)
       \<and> num_le (calendarHeightOf cfg dates m) (height cfg)"
proof -
  obtain c where c: "0 < c" "maxColumnsGroup cfg dates = Num c"
    using maxColumnsGroup_finite [OF assms(6,7)] by auto
  obtain g where g: "monthsPerGroup cfg = Num g"
    by (cases "granularity cfg = ''year''") (simp_all add: monthsPerGroup_def ofInt_def)
  define b :: real where "b = of_int (int (length dates))"
  have b: "1 \<le> b"
    using assms(6) by (cases dates) (simp_all add: b_def)
  have len: "ofInt (int (length dates)) = Num b"
    by (simp add: ofInt_def b_def)
  define A where "A v = (v - ms * g - ds * c) / c" for v
  define B where "B v = (v - (b - 1) * ys - b * (r * ds)) / (b * r)" for v
  have br: "0 < b * r" and nz: "b \<noteq> 0" "r \<noteq> 0"
    using b assms(9) by simp_all
  have A: "A v * c + ds * c + ms * g = v" for v
    using c(1) by (simp add: A_def field_simps)
  have B: "(B v + ds) * r * b + ys * (b - 1) = v" for v
  proof -
    have "b \<noteq> 0" "r \<noteq> 0"
      using b assms(9) by simp_all
    then have "B v * (b * r) = v - (b - 1) * ys - b * (r * ds)"
      unfolding B_def by simp
    then show ?thesis
      by (simp add: algebra_simps)
  qed
  have mono_c: "s * c + ds * c + ms * g \<le> A v * c + ds * c + ms * g" if "s \<le> A v" for s v
    using that c(1) by simp
  have mono_r: "(s + ds) * r * b + ys * (b - 1) \<le> (B v + ds) * r * b + ys * (b - 1)"
    if "s \<le> B v" for s v
  proof -
    have "(s + ds) * (r * b) \<le> (B v + ds) * (r * b)"
      using that br by (intro mult_right_mono) (simp_all add: mult.commute)
    then show ?thesis
      by (simp add: mult.assoc)
  qed
  show ?thesis
  proof (cases "direction cfg = ''horizontal''")
    case True
    have cs: "cellSizeOf cfg dates m = Num (min (A W) (B H))"
      using True nz c(1)
      by (simp add: cellSizeOf_def computeCellSize_def assms(1-5,8) c(2) g len A_def B_def)
    have "min (A W) (B H) * c + ds * c + ms * g \<le> W"
      using mono_c [of "min (A W) (B H)" W] A [of W] by simp
    moreover have "(min (A W) (B H) + ds) * r * b + ys * (b - 1) \<le> H"
      using mono_r [of "min (A W) (B H)" H] B [of H] by simp
    ultimately show ?thesis
      using True
      by (simp add: calendarWidthOf_def calendarHeightOf_def monthsSize_def yearsSize_def cs
          assms(1-5,8) c(2) g len)
  next
    case False
    have cs: "cellSizeOf cfg dates m = Num (min (B W) (A H))"
      using False nz c(1)
      by (simp add: cellSizeOf_def computeCellSize_def assms(1-5,8) c(2) g len A_def B_def)
    have "min (B W) (A H) * c + ds * c + ms * g \<le> H"
      using mono_c [of "min (B W) (A H)" H] A [of H] by simp
    moreover have "(min (B W) (A H) + ds) * r * b + ys * (b - 1) \<le> W"
      using mono_r [of "min (B W) (A H)" W] B [of W] by simp
    ultimately show ?thesis
      using False
      by (simp add: calendarWidthOf_def calendarHeightOf_def monthsSize_def yearsSize_def cs
          assms(1-5,8) c(2) g len)
  qed
qed

text \<open>
  Two of the four closures call \<open>getA\<close> without its cell size: even with a start date the
  coordinate they get from it is not a number.
\<close>

lemma getA_without_cellSize: "getA d i ys ds rows NaN = NaN"
  by (simp add: getA_def)

lemma cellPositionHorizontalHorizontal_y:
  "cellPositionHorizontalHorizontal cs ys ms ds rows ox oy d i (Some s) = Inr p \<Longrightarrow> snd p = NaN"
  by (auto simp: cellPositionHorizontalHorizontal_def getB_def getA_without_cellSize)

lemma cellPositionVerticalVertical_x:
  "cellPositionVerticalVertical cs ys ms ds rows ox oy d i (Some s) = Inr p \<Longrightarrow> fst p = NaN"
  by (auto simp: cellPositionVerticalVertical_def getB_def getA_without_cellSize Let_def)

text \<open>
  The sums of the scan are not those of the specification's words: for July 2023 alone (31
  days, the first a Saturday) the scan adds the 30 days of June to the Saturday and leaves 5,
  where the month's own days give 37 and 6.
\<close>

lemma scan_reads_the_month_before:
  "partitionDates cfgJuly2023 = Inr ([(firstOfMonth 24282, firstOfMonth 24283)], Num 5)
   \<and> specMaxRowsMonth cfgJuly2023 = 6"
proof -
  let ?to = "\<lparr>getFullYear = 2023, getMonth = 6, getDate = 31, getTimeOfDay = 0\<rparr>"
  have less: "dateLess (firstOfMonth 24282) ?to" "\<not> dateLess (firstOfMonth 24283) ?to"
    by (simp_all add: dateLess_def firstOfMonth_def)
  have ends: "blockEnd 24282 1 = firstOfMonth 24283"
    by (simp add: blockEnd_valid)
  have sum: "scanSum 24282 0 = 36"
    by (simp add: scanSum_def calendar_defs)
  have scan: "scanMonths 24282 1 0 NaN = Num 5"
    by (simp add: scanMonths_five sum scanMonths_stop)
  have "monthBlocks ''horizontal'' 24282 ?to 1 NaN
          = Inr ([(firstOfMonth 24282, firstOfMonth 24283)], Num 5)"
    by (simp add: monthBlocks_step less monthBlocks_stop scan validDate_firstOfMonth ends)
  then have "partitionDates cfgJuly2023
          = Inr ([(firstOfMonth 24282, firstOfMonth 24283)], Num 5)"
    by (simp add: partitionDates_def cfgJuly2023_def calendar_defs)
  moreover have "specSum 24282 = 37"
    by (simp add: specSum_def calendar_defs)
  then have "specMaxRowsMonth cfgJuly2023 = 6"
    by (simp add: specMaxRowsMonth_def cfgJuly2023_def monthIndex_def)
  ultimately show ?thesis
    by (intro conjI)
qed

section \<open>The claims about what \<^verbatim>\<open>computeLayout\<close> returns\<close>

text \<open>
  Claim C1 says that the returned \<^verbatim>\<open>days\<close> hold one entry per calendar day of the
  blocks, each with its own \<^verbatim>\<open>YYYY-MM-DD\<close> key, in date order. At the
  specification's scenario (2023, one year per block, direction horizontal, weeks vertical)
  the step that builds the day cells of the block throws, and so does the call: no
  \<^verbatim>\<open>days\<close> sequence is returned.
\<close>

theorem C1_no_days_at_2023:
  "(blockDays (cfg2023 ''horizontal'' ''vertical'') cs m ox oy 0
       (firstOfMonth 24276, firstOfMonth 24288) :: error + 'v dayCell list) = Inl TypeError
   \<and> (computeLayout alignBox (cfg2023 ''horizontal'' ''vertical'') :: error + 'v layout)
       = Inl TypeError"
proof -
  have "dateLess (ceilDay (fst (firstOfMonth 24276, firstOfMonth 24288)))
          (snd (firstOfMonth 24276, firstOfMonth 24288))"
    by (simp add: ceilDay_firstOfMonth dateLess_firstOfMonth)
  then have "(blockDays (cfg2023 ''horizontal'' ''vertical'') cs m ox oy 0
       (firstOfMonth 24276, firstOfMonth 24288) :: error + 'v dayCell list) = Inl TypeError"
    by (rule blockDays_throws)
  moreover have "(computeLayout alignBox (cfg2023 ''horizontal'' ''vertical'')
      :: error + 'v layout) = Inl TypeError"
    by (rule computeLayout_cfg2023)
  ultimately show ?thesis
    by (intro conjI)
qed

text \<open>
  Claim C2 says that the returned \<^verbatim>\<open>calendarWidth\<close> and
  \<^verbatim>\<open>calendarHeight\<close> are at most the width and the height. At the scenario with
  weeks horizontal the two sizes that the call computes do fit (800 wide for a width of 800),
  but the call throws before it returns them.
\<close>

theorem C2_sizes_fit_and_are_not_returned:
  "num_le (calendarWidthOf (cfg2023 ''horizontal'' ''horizontal'')
             [(firstOfMonth 24276, firstOfMonth 24288)] (Num 6))
          (width (cfg2023 ''horizontal'' ''horizontal''))
   \<and> num_le (calendarHeightOf (cfg2023 ''horizontal'' ''horizontal'')
             [(firstOfMonth 24276, firstOfMonth 24288)] (Num 6))
          (height (cfg2023 ''horizontal'' ''horizontal''))
   \<and> (computeLayout alignBox (cfg2023 ''horizontal'' ''horizontal'') :: error + 'v layout)
       = Inl TypeError"
proof -
  have cs: "cellSizeOf (cfg2023 ''horizontal'' ''horizontal'')
              [(firstOfMonth 24276, firstOfMonth 24288)] (Num 6) = Num (158 / 21)"
    by (simp add: cellSizeOf_def cfg2023_def computeCellSize_def rowsMonth_def
        maxColumnsGroup_def monthsPerGroup_def ofInt_def)
  have "calendarWidthOf (cfg2023 ''horizontal'' ''horizontal'')
          [(firstOfMonth 24276, firstOfMonth 24288)] (Num 6) = Num 800"
    "calendarHeightOf (cfg2023 ''horizontal'' ''horizontal'')
          [(firstOfMonth 24276, firstOfMonth 24288)] (Num 6) = Num (400 / 7)"
    by (simp_all add: calendarWidthOf_def calendarHeightOf_def monthsSize_def yearsSize_def cs)
       (simp_all add: cfg2023_def rowsMonth_def maxColumnsGroup_def monthsPerGroup_def ofInt_def)
  moreover have "(computeLayout alignBox (cfg2023 ''horizontal'' ''horizontal'')
      :: error + 'v layout) = Inl TypeError"
    by (rule computeLayout_cfg2023)
  ultimately show ?thesis
    by (simp add: cfg2023_def)
qed

text \<open>
  Claim C3 says that every day cell lies within the box of its month, for every direction
  and week direction. At the scenario, for each of the four combinations, the call throws
  at the first day cell: there is no day entry to place.
\<close>

theorem C3_no_day_cell_in_any_orientation:
  "(computeLayout alignBox (cfg2023 ''horizontal'' ''horizontal'') :: error + 'v layout)
     = Inl TypeError
   \<and> (computeLayout alignBox (cfg2023 ''horizontal'' ''vertical'') :: error + 'v layout)
     = Inl TypeError
   \<and> (computeLayout alignBox (cfg2023 ''vertical'' ''horizontal'') :: error + 'v layout)
     = Inl TypeError
   \<and> (computeLayout alignBox (cfg2023 ''vertical'' ''vertical'') :: error + 'v layout)
     = Inl TypeError"
proof -
  have "(computeLayout alignBox (cfg2023 dir wd) :: error + 'v layout) = Inl TypeError"
    for dir wd
    by (rule computeLayout_cfg2023)
  then show ?thesis
    by simp
qed

text \<open>
  Claim C4 says that the year descriptor of a block has the union of the block's twelve month
  boxes as its box. At the scenario with direction vertical the block has its twelve months,
  and the step that builds the year's box would return one; but the body of the loop throws
  at the day cells, before that step, and the call returns no year descriptor.
\<close>

theorem C4_no_year_descriptor_at_2023:
  "length (blockMonths (cfg2023 ''vertical'' ''horizontal'') cs ox oy 0
             (firstOfMonth 24276, firstOfMonth 24288)) = 12
   \<and> (processBlock (cfg2023 ''vertical'' ''horizontal'') cs m ox oy acc 0
         (firstOfMonth 24276, firstOfMonth 24288)
         :: error + yearDescriptor list \<times> monthDescriptor list \<times> 'v dayCell list)
       = Inl TypeError
   \<and> (computeLayout alignBox (cfg2023 ''vertical'' ''horizontal'') :: error + 'v layout)
       = Inl TypeError"
proof -
  have "length (blockMonths (cfg2023 ''vertical'' ''horizontal'') cs ox oy 0
             (firstOfMonth 24276, firstOfMonth (24276 + 12))) = nat 12"
    unfolding blockMonths_def length_map fst_conv snd_conv by (rule length_timeMonths_block)
  then have "length (blockMonths (cfg2023 ''vertical'' ''horizontal'') cs ox oy 0
             (firstOfMonth 24276, firstOfMonth 24288)) = 12"
    by simp
  moreover have "(processBlock (cfg2023 ''vertical'' ''horizontal'') cs m ox oy acc 0
         (firstOfMonth 24276, firstOfMonth 24288)
         :: error + yearDescriptor list \<times> monthDescriptor list \<times> 'v dayCell list)
       = Inl TypeError"
    by (rule processBlock_days) (simp add: ceilDay_firstOfMonth dateLess_firstOfMonth)
  moreover have "(computeLayout alignBox (cfg2023 ''vertical'' ''horizontal'')
      :: error + 'v layout) = Inl TypeError"
    by (rule computeLayout_cfg2023)
  ultimately show ?thesis
    by (intro conjI)
qed

section \<open>Data binding\<close>

text \<open>
  Claim C5. \<^verbatim>\<open>bindDaysData\<close> returns one cell per day cell, in order. A cell whose
  key no record has comes back with \<^verbatim>\<open>color = emptyColor\<close> and every other field as
  it was (no \<^verbatim>\<open>value\<close>, no \<^verbatim>\<open>data\<close> gained). A cell whose key some record
  has comes back with the value of the last such record, the colour
  \<^verbatim>\<open>colorScale(value)\<close> of that value, and that record as \<^verbatim>\<open>data\<close>.
\<close>

theorem C5_bindDaysData:
  assumes "k < length cells"
  shows "length (bindDaysData cells data colorScale emptyColor) = length cells
    \<and> (filter (\<lambda>d. datum_day d = cell_day (cells ! k)) data = []
         \<longrightarrow> bindDaysData cells data colorScale emptyColor ! k
               = (cells ! k)\<lparr>cell_color := Some emptyColor\<rparr>)
    \<and> (filter (\<lambda>d. datum_day d = cell_day (cells ! k)) data \<noteq> []
         \<longrightarrow> bindDaysData cells data colorScale emptyColor ! k
               = (cells ! k)\<lparr>cell_value := Some (datum_value
                                  (last (filter (\<lambda>d. datum_day d = cell_day (cells ! k)) data))),
                             cell_color := Some (colorScale (datum_value
                                  (last (filter (\<lambda>d. datum_day d = cell_day (cells ! k)) data)))),
                             cell_data := Some
                                  (last (filter (\<lambda>d. datum_day d = cell_day (cells ! k)) data))\<rparr>)"
  using assms by (simp add: bindDaysData_def foldl_bindDay)

theorem C5_bindDaysData_witness:
  "bindDaysData cellsW dataW scaleW ''#fff'' ! 0
     = (cellsW ! 0)\<lparr>cell_value := Some 7, cell_color := Some ''high'',
                     cell_data := Some \<lparr>datum_day = ''2023-01-01'', datum_value = 7\<rparr>\<rparr>
   \<and> bindDaysData cellsW dataW scaleW ''#fff'' ! 1 = (cellsW ! 1)\<lparr>cell_color := Some ''#fff''\<rparr>"
proof -
  have k: "0 < length cellsW" "Suc 0 < length cellsW"
    by (simp_all add: cellsW_def)
  have keys: "cell_day (cellsW ! 0) = ''2023-01-01''" "cell_day (cellsW ! Suc 0) = ''2023-01-02''"
    by (simp_all add: cellsW_def dayFormat_W)
  from C5_bindDaysData [OF k(1), of dataW scaleW "''#fff''"]
       C5_bindDaysData [OF k(2), of dataW scaleW "''#fff''"]
  show ?thesis
    by (simp add: keys dataW_def scaleW_def)
qed

section \<open>The year descriptor of a block of months\<close>




section \<open>The rows of a month\<close>

text \<open>
  Claim C7 as it is stated, scanning only the months of the first block, fails for July and
  August 2020 with one month per block: the first block's scan leaves 5, the second block is
  scanned as well and gives 6, where the scan of the specification gives 5.
\<close>

theorem C7_first_block_scan_counterexample:
  "partitionDates cfgJulAug2020 =
     Inr ([(firstOfMonth 24246, firstOfMonth 24247), (firstOfMonth 24247, firstOfMonth 24248)],
          Num 6)
   \<and> specMaxRowsMonth cfgJulAug2020 = 5"
proof -
  have "specSum 24246 = 34"
    by (simp add: specSum_def calendar_defs)
  then have "specMaxRowsMonth cfgJulAug2020 = 5"
    by (simp add: specMaxRowsMonth_def cfgJulAug2020_def monthIndex_def)
  then show ?thesis
    by (simp add: partition_cfgJulAug2020)
qed

text \<open>
  Claim C7, amended. With a granularity other than \<^verbatim>\<open>'year'\<close> and weeks
  horizontal, \<^verbatim>\<open>maxRowsMonth\<close> is the result of going through the blocks in
  order, from \<^verbatim>\<open>undefined\<close>: a block is scanned only while the value is not 6, so
  that 6, once reached, stays. A scan looks at \<open>breakpoint\<close> sums, for \<open>i\<close> from 0: the
  first sum of 37 or more makes the result 6 and ends the scan; without such a sum the last
  one decides, \<^verbatim>\<open>Math.max\<close> of the value so far and 4 if it is 28, and 5 otherwise.
\<close>

theorem C7_maxRowsMonth_scan:
  assumes "granularity cfg \<noteq> ''year''" and "weekDirection cfg = ''horizontal''"
    and "partitionDates cfg = Inr (dates, m)"
  shows "m = foldl (\<lambda>rows blk. if rows = Num 6 then rows
                               else scanMonths (monthIndex (fst blk)) (breakpoint cfg) 0 rows)
               NaN dates
     \<and> (\<forall>t bp i j rows. i \<le> j \<and> j < bp \<and> 37 \<le> scanSum t j
            \<longrightarrow> scanMonths t bp i rows = Num 6)
     \<and> (\<forall>t bp i rows. i < bp \<and> (\<forall>j. i \<le> j \<and> j < bp \<longrightarrow> scanSum t j < 37)
            \<longrightarrow> scanMonths t bp i rows =
                 (if scanSum t (bp - 1) = 28
                  then Math_max (scanMonths t (bp - 1) i rows) (Num 4) else Num 5))"
proof -
  have "monthBlocks ''horizontal''
      (monthIndex (newDate (getUTCFullYear (fromDate cfg)) (int (getUTCMonth (fromDate cfg))) 1))
      (toDate cfg) (breakpoint cfg) NaN = Inr (dates, m)"
    using assms by (simp add: partitionDates_def)
  then have "m = foldl (\<lambda>rows blk. if rows = Num 6 then rows
                               else scanMonths (monthIndex (fst blk)) (breakpoint cfg) 0 rows)
               NaN dates"
    by (rule monthBlocks_rows)
  moreover have "\<forall>t bp i j rows. i \<le> j \<and> j < bp \<and> 37 \<le> scanSum t j
            \<longrightarrow> scanMonths t bp i rows = Num 6"
    using scanMonths_reaches_six by blast
  moreover have "\<forall>t bp i rows. i < bp \<and> (\<forall>j. i \<le> j \<and> j < bp \<longrightarrow> scanSum t j < 37)
            \<longrightarrow> scanMonths t bp i rows =
                 (if scanSum t (bp - 1) = 28
                  then Math_max (scanMonths t (bp - 1) i rows) (Num 4) else Num 5)"
    using scanMonths_last by blast
  ultimately show ?thesis
    by (intro conjI)
qed

theorem C7_maxRowsMonth_scan_witness:
  "Num 6 = foldl (\<lambda>rows blk. if rows = Num 6 then rows
                             else scanMonths (monthIndex (fst blk)) 1 0 rows)
             NaN [(firstOfMonth 24246, firstOfMonth 24247), (firstOfMonth 24247, firstOfMonth 24248)]
   \<and> scanMonths 24247 1 0 (Num 5) = Num 6
   \<and> scanMonths 24246 1 0 NaN = Num 5"
proof -
  have g: "granularity cfgJulAug2020 \<noteq> ''year''" and w: "weekDirection cfgJulAug2020 = ''horizontal''"
    and bp: "breakpoint cfgJulAug2020 = 1"
    by (simp_all add: cfgJulAug2020_def)
  have sums: "scanSum 24246 0 = 33" "scanSum 24247 0 = 37"
    by (simp_all add: scanSum_def calendar_defs)
  note inst = C7_maxRowsMonth_scan [OF g w partition_cfgJulAug2020, unfolded bp]
  from inst have six: "\<forall>t bp i j rows. i \<le> j \<and> j < bp \<and> 37 \<le> scanSum t j
            \<longrightarrow> scanMonths t bp i rows = Num 6"
    by simp
  from inst have five: "\<forall>t bp i rows. i < bp \<and> (\<forall>j. i \<le> j \<and> j < bp \<longrightarrow> scanSum t j < 37)
            \<longrightarrow> scanMonths t bp i rows =
                 (if scanSum t (bp - 1) = 28
                  then Math_max (scanMonths t (bp - 1) i rows) (Num 4) else Num 5)"
    by simp
  have a: "scanMonths 24247 1 0 (Num 5) = Num 6"
    using six [rule_format, of 0 0 1 24247 "Num 5"] sums by simp
  have "\<forall>j::int. 0 \<le> j \<and> j < 1 \<longrightarrow> scanSum 24246 j < 37"
  proof (intro allI impI)
    fix j :: int
    assume "0 \<le> j \<and> j < 1"
    then have "j = 0" by simp
    then show "scanSum 24246 j < 37" using sums by simp
  qed
  then have b: "scanMonths 24246 1 0 NaN = Num 5"
    using five [rule_format, of 0 1 24246 NaN] sums by simp
  from inst a b show ?thesis
    by simp
qed

section \<open>Values that are not recognised\<close>

text \<open>
  Claim C8 as it is stated fails: with a direction, a week direction and a granularity that
  are none of the expected values \<^verbatim>\<open>computeLayout\<close> returns a layout (of an
  empty range), and \<^verbatim>\<open>computeYearLegendPositions\<close> with an unknown direction and
  position returns the anchor of its last branch. Nothing raises a configuration error.
\<close>

theorem C8_no_configuration_error_counterexample:
  "(computeLayout (\<lambda>inner outer al. (Num 0, Num 0)) cfgUnknown :: error + unit layout)
     = Inr \<lparr>years = [], months = [], days = [], cellSize = NaN, calendarWidth = NaN,
            calendarHeight = NaN, originX = Num 0, originY = Num 0\<rparr>
   \<and> computeYearLegendPositions yearsU ''diagonal'' ''middle'' (Num 5)
     = [\<lparr>legend_of = yearsU ! 0, legend_x = Num 160, legend_y = Num 95,
         legend_rotation = Num 0\<rparr>]"
proof -
  have "cellSizeOf cfgUnknown [] NaN = NaN" "calendarWidthOf cfgUnknown [] NaN = NaN"
    "calendarHeightOf cfgUnknown [] NaN = NaN"
    by (simp_all add: cellSizeOf_def calendarWidthOf_def calendarHeightOf_def monthsSize_def
        yearsSize_def rowsMonth_def computeCellSize_def cfgUnknown_def)
  then have "(computeLayout (\<lambda>inner outer al. (Num 0, Num 0)) cfgUnknown :: error + unit layout)
     = Inr \<lparr>years = [], months = [], days = [], cellSize = NaN, calendarWidth = NaN,
            calendarHeight = NaN, originX = Num 0, originY = Num 0\<rparr>"
    by (simp add: computeLayout_def partition_cfgUnknown)
  moreover have "computeYearLegendPositions yearsU ''diagonal'' ''middle'' (Num 5)
     = [\<lparr>legend_of = yearsU ! 0, legend_x = Num 160, legend_y = Num 95,
         legend_rotation = Num 0\<rparr>]"
    by (simp add: computeYearLegendPositions_def yearsU_def)
  ultimately show ?thesis
    by (intro conjI)
qed

text \<open>
  Claim C8, amended. No value is checked. \<^verbatim>\<open>computeLayout\<close> does for a direction
  other than \<^verbatim>\<open>'horizontal'\<close> what it does for \<^verbatim>\<open>'vertical'\<close>, and
  for a granularity other than \<^verbatim>\<open>'year'\<close> what it does for
  \<^verbatim>\<open>'month'\<close>; a week direction that is neither \<^verbatim>\<open>'horizontal'\<close> nor
  \<^verbatim>\<open>'vertical'\<close> partitions the dates and places the cells as
  \<^verbatim>\<open>'vertical'\<close> does, counts the columns as \<^verbatim>\<open>'horizontal'\<close> does and
  leaves \<^verbatim>\<open>maxRowsMonth\<close> as the partition left it. The two legend functions give
  an unrecognised direction or position the anchors of \<^verbatim>\<open>'vertical'\<close> and
  \<^verbatim>\<open>'after'\<close>.
\<close>

theorem C8_unrecognized_values_fall_through:
  "(direction cfg \<noteq> ''horizontal''
      \<longrightarrow> (computeLayout alignBox cfg :: error + 'v layout)
            = computeLayout alignBox (cfg\<lparr>direction := ''vertical''\<rparr>))
   \<and> (granularity cfg \<noteq> ''year''
      \<longrightarrow> (computeLayout alignBox cfg :: error + 'v layout)
            = computeLayout alignBox (cfg\<lparr>granularity := ''month''\<rparr>))
   \<and> (weekDirection cfg \<noteq> ''horizontal'' \<and> weekDirection cfg \<noteq> ''vertical''
      \<longrightarrow> partitionDates cfg = partitionDates (cfg\<lparr>weekDirection := ''vertical''\<rparr>)
          \<and> maxColumnsGroup cfg dates
                = maxColumnsGroup (cfg\<lparr>weekDirection := ''horizontal''\<rparr>) dates
          \<and> rowsMonth cfg m = m
          \<and> cellPosition cfg = cellPosition (cfg\<lparr>weekDirection := ''vertical''\<rparr>))
   \<and> ((d \<noteq> ''horizontal'' \<and> d \<noteq> ''vertical'') \<or> (p \<noteq> ''before'' \<and> p \<noteq> ''after'')
      \<longrightarrow> computeYearLegendPositions ys d p off
            = computeYearLegendPositions ys ''vertical'' ''after'' off
          \<and> computeMonthLegendPositions ms d p off
            = computeMonthLegendPositions ms ''vertical'' ''after'' off)"
proof (intro conjI impI)
  assume "direction cfg \<noteq> ''horizontal''"
  then show "(computeLayout alignBox cfg :: error + 'v layout)
            = computeLayout alignBox (cfg\<lparr>direction := ''vertical''\<rparr>)"
    by (rule computeLayout_other_direction)
next
  assume "granularity cfg \<noteq> ''year''"
  then show "(computeLayout alignBox cfg :: error + 'v layout)
            = computeLayout alignBox (cfg\<lparr>granularity := ''month''\<rparr>)"
    by (rule computeLayout_other_granularity)
next
  assume wd: "weekDirection cfg \<noteq> ''horizontal'' \<and> weekDirection cfg \<noteq> ''vertical''"
  then show "partitionDates cfg = partitionDates (cfg\<lparr>weekDirection := ''vertical''\<rparr>)"
    by (intro other_weekDirection(1)) simp_all
  from wd show "maxColumnsGroup cfg dates
                = maxColumnsGroup (cfg\<lparr>weekDirection := ''horizontal''\<rparr>) dates"
    by (intro other_weekDirection(2)) simp_all
  from wd show "rowsMonth cfg m = m"
    by (intro other_weekDirection(3)) simp_all
  from wd show "cellPosition cfg = cellPosition (cfg\<lparr>weekDirection := ''vertical''\<rparr>)"
    by (intro other_weekDirection(4)) simp_all
next
  assume dp: "(d \<noteq> ''horizontal'' \<and> d \<noteq> ''vertical'') \<or> (p \<noteq> ''before'' \<and> p \<noteq> ''after'')"
  then show "computeYearLegendPositions ys d p off
            = computeYearLegendPositions ys ''vertical'' ''after'' off"
    by (rule legends_else_branch(1))
  from dp show "computeMonthLegendPositions ms d p off
            = computeMonthLegendPositions ms ''vertical'' ''after'' off"
    by (rule legends_else_branch(2))
qed

theorem C8_unrecognized_values_fall_through_witness:
  "(computeLayout (\<lambda>inner outer al. (Num 0, Num 0)) cfgUnknown :: error + unit layout)
     = computeLayout (\<lambda>inner outer al. (Num 0, Num 0)) (cfgUnknown\<lparr>direction := ''vertical''\<rparr>)
   \<and> (computeLayout (\<lambda>inner outer al. (Num 0, Num 0)) cfgUnknown :: error + unit layout)
     = computeLayout (\<lambda>inner outer al. (Num 0, Num 0)) (cfgUnknown\<lparr>granularity := ''month''\<rparr>)
   \<and> partitionDates cfgUnknown = partitionDates (cfgUnknown\<lparr>weekDirection := ''vertical''\<rparr>)
   \<and> computeYearLegendPositions yearsU ''diagonal'' ''middle'' (Num 5)
     = computeYearLegendPositions yearsU ''vertical'' ''after'' (Num 5)"
proof -
  have vals: "direction cfgUnknown \<noteq> ''horizontal''" "granularity cfgUnknown \<noteq> ''year''"
    "weekDirection cfgUnknown \<noteq> ''horizontal'' \<and> weekDirection cfgUnknown \<noteq> ''vertical''"
    "(''diagonal'' \<noteq> ''horizontal'' \<and> ''diagonal'' \<noteq> ''vertical'')
       \<or> (''middle'' \<noteq> ''before'' \<and> ''middle'' \<noteq> ''after'')"
    by (simp_all add: cfgUnknown_def)
  from C8_unrecognized_values_fall_through
    [of cfgUnknown "\<lambda>inner outer al. (Num 0, Num 0)" "[]" NaN "''diagonal''" "''middle''"
        yearsU "Num 5" "[]", where ?'v = unit] vals
  show ?thesis
    by blast
qed

section \<open>A width or a height of zero or less\<close>

text \<open>
  Claim C9 as it is stated fails: for the year 2023 and a width of 0 the cell size is -2,
  not a number clamped at 0.
\<close>

theorem C9_negative_cell_size_counterexample:
  "cellSizeOf cfgZeroWidth [(firstOfMonth 24276, firstOfMonth 24288)] (Num 6) = Num (- 2)
   \<and> \<not> num_le (Num 0)
         (cellSizeOf cfgZeroWidth [(firstOfMonth 24276, firstOfMonth 24288)] (Num 6))"
proof -
  have "cellSizeOf cfgZeroWidth [(firstOfMonth 24276, firstOfMonth 24288)] (Num 6) = Num (- 2)"
    by (simp add: cellSizeOf_def cfgZeroWidth_def computeCellSize_def rowsMonth_def
        maxColumnsGroup_def monthsPerGroup_def ofInt_def)
  then show ?thesis
    by simp
qed

text \<open>
  Claim C9, amended. With finite arguments, at least one block, positive
  \<^verbatim>\<open>maxRowsMonth\<close> and \<^verbatim>\<open>maxColumnsGroup\<close>, and spacings and
  \<^verbatim>\<open>monthsPerGroup\<close> that are not negative, \<^verbatim>\<open>computeCellSize\<close> divides
  by nothing that the width or the height could make zero and returns a finite number, the
  minimum of the two candidates, one per axis; with a width or a height of zero or less that
  number is at most 0, and it is negative as soon as the width or the height is: there is no
  clamp.
\<close>

theorem C9_cell_size_is_not_clamped:
  assumes "1 \<le> b" "0 < rows" "0 < cols" "0 \<le> ys" "0 \<le> ms" "0 \<le> ds" "0 \<le> mpg"
    and "w \<le> 0 \<or> h \<le> 0"
  shows "computeCellSize (Num w) (Num h) dir (Num b) (Num ys) (Num ms) (Num ds)
           (Num rows) (Num cols) (Num mpg)
         = Num (if dir = ''horizontal''
                then min ((w - ms * mpg - ds * cols) / cols)
                         ((h - (b - 1) * ys - b * (rows * ds)) / (b * rows))
                else min ((w - (b - 1) * ys - b * (rows * ds)) / (b * rows))
                         ((h - ms * mpg - ds * cols) / cols))
     \<and> (\<exists>c. computeCellSize (Num w) (Num h) dir (Num b) (Num ys) (Num ms) (Num ds)
               (Num rows) (Num cols) (Num mpg) = Num c
             \<and> c \<le> 0 \<and> (w < 0 \<or> h < 0 \<longrightarrow> c < 0))"
proof -
  define colsCandidate where "colsCandidate v = (v - ms * mpg - ds * cols) / cols" for v
  define rowsCandidate where "rowsCandidate v = (v - (b - 1) * ys - b * (rows * ds)) / (b * rows)" for v
  have pos: "0 < b * rows" "b * rows \<noteq> 0" "cols \<noteq> 0"
    using assms by simp_all
  have loss: "0 \<le> ms * mpg + ds * cols" "0 \<le> (b - 1) * ys + b * (rows * ds)"
    using assms by simp_all
  have le: "colsCandidate v \<le> 0" "rowsCandidate v \<le> 0" if "v \<le> 0" for v
    using that loss assms(3) pos(1) by (simp_all add: colsCandidate_def rowsCandidate_def divide_le_0_iff)
  have less: "colsCandidate v < 0" "rowsCandidate v < 0" if "v < 0" for v
    using that loss assms(3) pos(1) by (simp_all add: colsCandidate_def rowsCandidate_def divide_less_0_iff)
  have size: "computeCellSize (Num w) (Num h) dir (Num b) (Num ys) (Num ms) (Num ds)
               (Num rows) (Num cols) (Num mpg)
      = Num (if dir = ''horizontal'' then min (colsCandidate w) (rowsCandidate h)
             else min (rowsCandidate w) (colsCandidate h))"
    using pos by (simp add: computeCellSize_def colsCandidate_def rowsCandidate_def)
  have "\<exists>c. computeCellSize (Num w) (Num h) dir (Num b) (Num ys) (Num ms) (Num ds)
               (Num rows) (Num cols) (Num mpg) = Num c
             \<and> c \<le> 0 \<and> (w < 0 \<or> h < 0 \<longrightarrow> c < 0)"
    unfolding size using assms(8) le [of w] le [of h] less [of w] less [of h]
    by (auto simp: min_def)
  with size show ?thesis
    unfolding colsCandidate_def rowsCandidate_def by (intro conjI)
qed

theorem C9_cell_size_is_not_clamped_witness:
  "computeCellSize (Num 0) (Num 200) ''horizontal'' (Num 1) (Num 30) (Num 0) (Num 2)
     (Num 6) (Num 84) (Num 12) = Num (- 2)
   \<and> computeCellSize (Num 800) (Num (- 12)) ''vertical'' (Num 1) (Num 30) (Num 0) (Num 2)
     (Num 6) (Num 84) (Num 12) = Num (- 15 / 7)"
  using C9_cell_size_is_not_clamped [of 1 6 84 30 0 2 12 0 200 "''horizontal''"]
    C9_cell_size_is_not_clamped [of 1 6 84 30 0 2 12 800 "- 12" "''vertical''"]
  by simp

section \<open>Legend positions\<close>

text \<open>
  Claim C10. For a box and an offset, both finite, and each of the two directions, the
  \<^verbatim>\<open>'after'\<close> anchor of a descriptor is the \<^verbatim>\<open>'before'\<close> anchor moved
  along the offset axis by twice the offset plus the extent of the box on that axis, the
  other coordinate and the rotation being the same. The offset axis of
  \<^verbatim>\<open>computeYearLegendPositions\<close> is \<open>x\<close> when the direction is horizontal and
  \<open>y\<close> when it is vertical; \<^verbatim>\<open>computeMonthLegendPositions\<close> has them the other
  way round.
\<close>

theorem C10_legend_symmetry:
  assumes "k < length ys" "k < length ms"
    and "year_bbox (ys ! k) = \<lparr>bbox_x = Num a, bbox_y = Num b, bbox_width = Num w, bbox_height = Num h\<rparr>"
    and "month_bbox (ms ! k) = \<lparr>bbox_x = Num a', bbox_y = Num b', bbox_width = Num w', bbox_height = Num h'\<rparr>"
  shows
    "legend_x (computeYearLegendPositions ys ''horizontal'' ''after'' (Num off) ! k)
       - legend_x (computeYearLegendPositions ys ''horizontal'' ''before'' (Num off) ! k)
       = Num (2 * off + w)
     \<and> legend_y (computeYearLegendPositions ys ''horizontal'' ''after'' (Num off) ! k)
       = legend_y (computeYearLegendPositions ys ''horizontal'' ''before'' (Num off) ! k)
     \<and> legend_rotation (computeYearLegendPositions ys ''horizontal'' ''after'' (Num off) ! k)
       = legend_rotation (computeYearLegendPositions ys ''horizontal'' ''before'' (Num off) ! k)
     \<and> legend_y (computeYearLegendPositions ys ''vertical'' ''after'' (Num off) ! k)
       - legend_y (computeYearLegendPositions ys ''vertical'' ''before'' (Num off) ! k)
       = Num (2 * off + h)
     \<and> legend_x (computeYearLegendPositions ys ''vertical'' ''after'' (Num off) ! k)
       = legend_x (computeYearLegendPositions ys ''vertical'' ''before'' (Num off) ! k)
     \<and> legend_rotation (computeYearLegendPositions ys ''vertical'' ''after'' (Num off) ! k)
       = legend_rotation (computeYearLegendPositions ys ''vertical'' ''before'' (Num off) ! k)
     \<and> legend_y (computeMonthLegendPositions ms ''horizontal'' ''after'' (Num off) ! k)
       - legend_y (computeMonthLegendPositions ms ''horizontal'' ''before'' (Num off) ! k)
       = Num (2 * off + h')
     \<and> legend_x (computeMonthLegendPositions ms ''horizontal'' ''after'' (Num off) ! k)
       = legend_x (computeMonthLegendPositions ms ''horizontal'' ''before'' (Num off) ! k)
     \<and> legend_rotation (computeMonthLegendPositions ms ''horizontal'' ''after'' (Num off) ! k)
       = legend_rotation (computeMonthLegendPositions ms ''horizontal'' ''before'' (Num off) ! k)
     \<and> legend_x (computeMonthLegendPositions ms ''vertical'' ''after'' (Num off) ! k)
       - legend_x (computeMonthLegendPositions ms ''vertical'' ''before'' (Num off) ! k)
       = Num (2 * off + w')
     \<and> legend_y (computeMonthLegendPositions ms ''vertical'' ''after'' (Num off) ! k)
       = legend_y (computeMonthLegendPositions ms ''vertical'' ''before'' (Num off) ! k)
     \<and> legend_rotation (computeMonthLegendPositions ms ''vertical'' ''after'' (Num off) ! k)
       = legend_rotation (computeMonthLegendPositions ms ''vertical'' ''before'' (Num off) ! k)"
  using assms by (simp add: computeYearLegendPositions_def computeMonthLegendPositions_def)

theorem C10_legend_symmetry_witness:
  "legend_x (computeYearLegendPositions yearsW ''horizontal'' ''after'' (Num 5) ! 0)
     - legend_x (computeYearLegendPositions yearsW ''horizontal'' ''before'' (Num 5) ! 0)
     = Num 310
   \<and> legend_y (computeYearLegendPositions yearsW ''vertical'' ''after'' (Num 5) ! 0)
     - legend_y (computeYearLegendPositions yearsW ''vertical'' ''before'' (Num 5) ! 0)
     = Num 80
   \<and> legend_y (computeMonthLegendPositions monthsW ''horizontal'' ''after'' (Num 5) ! 0)
     - legend_y (computeMonthLegendPositions monthsW ''horizontal'' ''before'' (Num 5) ! 0)
     = Num 80
   \<and> legend_x (computeMonthLegendPositions monthsW ''vertical'' ''after'' (Num 5) ! 0)
     - legend_x (computeMonthLegendPositions monthsW ''vertical'' ''before'' (Num 5) ! 0)
     = Num 60"
proof -
  have k: "0 < length yearsW" "0 < length monthsW"
    by (simp_all add: yearsW_def monthsW_def)
  have boxes:
    "year_bbox (yearsW ! 0) = \<lparr>bbox_x = Num 10, bbox_y = Num 20, bbox_width = Num 300,
                                 bbox_height = Num 70\<rparr>"
    "month_bbox (monthsW ! 0) = \<lparr>bbox_x = Num 10, bbox_y = Num 20, bbox_width = Num 50,
                                   bbox_height = Num 70\<rparr>"
    by (simp_all add: yearsW_def monthsW_def)
  from C10_legend_symmetry [OF k boxes, of 5] show ?thesis
    by simp
qed

end
